theory Spec2Isabelle
  imports Main "HOL-Library.Sublist"
begin

section \<open>Python values, exceptions and library functions\<close>

text \<open>
  The print pipeline of open-pdf-creator: the CUPS backend
  (\<^verbatim>\<open>printer/linux/cups_backend.py\<close>, the producer) and the print job handler
  (\<^verbatim>\<open>service/print_handler.py\<close>, the consumer).

  Text and bytes are both \<open>string\<close> (lists of 8-bit characters): a character of a
  Python \<^verbatim>\<open>str\<close> is modelled by its code point, for code points below 256.
  Exceptions are values; a function that may raise returns \<open>exn + 'a\<close>, and a function
  that changes state before it raises returns the exception beside the state.
\<close>

datatype exn =
  OSError | JSONDecodeError | UnicodeDecodeError | ValueError | AttributeError | TypeError

text \<open>
  The values \<^verbatim>\<open>json.loads\<close> builds and \<^verbatim>\<open>json.dumps\<close> accepts (floating-point
  numbers are left out). A dict is the list of its items in insertion order.
\<close>

datatype json =
  JNull | JBool bool | JInt int | JStr string | JArr "json list" | JObj "(string \<times> json) list"

text \<open>
  What the code takes from the Python library without defining it: decoding bytes as
  UTF-8 (\<^verbatim>\<open>bytes.decode\<close>, reading a file opened in text mode), \<^verbatim>\<open>json.loads\<close> and
  \<^verbatim>\<open>int\<close>. Each may raise; \<open>int_of_str\<close> gives \<open>None\<close> for \<^verbatim>\<open>ValueError\<close>.
\<close>

record env =
  utf8_decode :: "string \<Rightarrow> exn + string"
  json_loads :: "string \<Rightarrow> exn + json"
  int_of_str :: "string \<Rightarrow> int option"

text \<open>\<^verbatim>\<open>json.load(f)\<close> on a file opened in text mode: decode, then parse.\<close>

definition json_load :: "env \<Rightarrow> string \<Rightarrow> exn + json" where
  "json_load env content =
     (case utf8_decode env content of Inl e \<Rightarrow> Inl e | Inr text \<Rightarrow> json_loads env text)"

subsection \<open>\<^verbatim>\<open>str.isalnum\<close>, \<^verbatim>\<open>str.strip\<close>\<close>

text \<open>
  \<^verbatim>\<open>str.isalnum\<close> follows the Unicode database: beyond the ASCII letters and digits it
  holds, below 256, for the letters, superscript digits and fractions of Latin-1.
\<close>

definition isalnum :: "char \<Rightarrow> bool" where
  "isalnum c =
     (let n = (of_char c :: nat) in
        (48 \<le> n \<and> n \<le> 57) \<or> (65 \<le> n \<and> n \<le> 90) \<or> (97 \<le> n \<and> n \<le> 122) \<or>
        n = 170 \<or> n = 178 \<or> n = 179 \<or> n = 181 \<or> n = 185 \<or> n = 186 \<or>
        (188 \<le> n \<and> n \<le> 190) \<or> (192 \<le> n \<and> n \<le> 214) \<or> (216 \<le> n \<and> n \<le> 246) \<or>
        (248 \<le> n \<and> n \<le> 255))"

definition isspace :: "char \<Rightarrow> bool" where
  "isspace c =
     (let n = (of_char c :: nat) in (9 \<le> n \<and> n \<le> 13) \<or> (28 \<le> n \<and> n \<le> 32) \<or> n = 133 \<or> n = 160)"

definition strip :: "string \<Rightarrow> string" where
  "strip s = rev (dropWhile isspace (rev (dropWhile isspace s)))"

subsection \<open>\<^verbatim>\<open>pathlib\<close>\<close>

text \<open>
  A \<^verbatim>\<open>PurePosixPath\<close> is its anchor (\<open>''''\<close>, \<open>''/''\<close> or \<open>''//''\<close>) and its
  segments. Parsing a string drops empty segments and \<open>''.''\<close> segments and keeps a
  leading double slash only when it is exactly double.
\<close>

datatype PosixPath = PosixPath (anchor: string) (segments: "string list")

primrec split_on :: "char \<Rightarrow> string \<Rightarrow> string list" where
  "split_on sep [] = [[]]"
| "split_on sep (c # cs) =
     (if c = sep then [] # split_on sep cs
      else (case split_on sep cs of [] \<Rightarrow> [[c]] | p # ps \<Rightarrow> (c # p) # ps))"

fun join :: "string \<Rightarrow> string list \<Rightarrow> string" where
  "join sep [] = []"
| "join sep [p] = p"
| "join sep (p # q # ps) = p @ sep @ join sep (q # ps)"

definition Path :: "string \<Rightarrow> PosixPath" where
  "Path s =
     PosixPath
       (if take 2 s = ''//'' \<and> take 3 s \<noteq> ''///'' then ''//''
        else if take 1 s = ''/'' then ''/'' else [])
       (filter (\<lambda>p. p \<noteq> [] \<and> p \<noteq> ''.'') (split_on (CHR ''/'') s))"

definition str :: "PosixPath \<Rightarrow> string" where
  "str p =
     (if anchor p = [] \<and> segments p = [] then ''.'' else anchor p @ join ''/'' (segments p))"

text \<open>\<^verbatim>\<open>p / s\<close>: an absolute right operand replaces the left one.\<close>

definition truediv :: "PosixPath \<Rightarrow> string \<Rightarrow> PosixPath" where
  "truediv p s =
     (let q = Path s in
      if anchor q \<noteq> [] then q else PosixPath (anchor p) (segments p @ segments q))"

definition parent :: "PosixPath \<Rightarrow> PosixPath" where
  "parent p = PosixPath (anchor p) (butlast (segments p))"

subsection \<open>\<^verbatim>\<open>json.dumps\<close>\<close>

text \<open>
  The default encoder: items separated by \<open>'', ''\<close>, keys from values by \<open>'': ''\<close>,
  and in a string every character outside the printable ASCII range, the double quote
  and the backslash escaped.
\<close>

function decimal :: "nat \<Rightarrow> string" where
  "decimal n =
     (if n < 10 then [char_of (48 + n)] else decimal (n div 10) @ [char_of (48 + n mod 10)])"
  by pat_completeness auto
termination
  by (relation "measure id") auto

definition repr_int :: "int \<Rightarrow> string" where
  "repr_int i = (if i < 0 then CHR ''-'' # decimal (nat (- i)) else decimal (nat i))"

definition hexdigit :: "nat \<Rightarrow> char" where
  "hexdigit d = (if d < 10 then char_of (48 + d) else char_of (87 + d))"

definition escape_char :: "char \<Rightarrow> string" where
  "escape_char c =
     (let n = (of_char c :: nat) in
      if n = 34 then [CHR 0x5C, CHR 0x22]
      else if n = 92 then [CHR 0x5C, CHR 0x5C]
      else if n = 10 then [CHR 0x5C, CHR ''n'']
      else if n = 13 then [CHR 0x5C, CHR ''r'']
      else if n = 9 then [CHR 0x5C, CHR ''t'']
      else if n = 8 then [CHR 0x5C, CHR ''b'']
      else if n = 12 then [CHR 0x5C, CHR ''f'']
      else if n < 32 \<or> 126 < n
        then [CHR 0x5C, CHR ''u'', CHR ''0'', CHR ''0'', hexdigit (n div 16), hexdigit (n mod 16)]
      else [c])"

definition quote :: "string \<Rightarrow> string" where
  "quote s = CHR 0x22 # concat (map escape_char s) @ [CHR 0x22]"

fun json_dumps :: "json \<Rightarrow> string"
  and dumps_items :: "json list \<Rightarrow> string"
  and dumps_members :: "(string \<times> json) list \<Rightarrow> string"
where
  "json_dumps JNull = ''null''"
| "json_dumps (JBool b) = (if b then ''true'' else ''false'')"
| "json_dumps (JInt i) = repr_int i"
| "json_dumps (JStr s) = quote s"
| "json_dumps (JArr xs) = ''['' @ dumps_items xs @ '']''"
| "json_dumps (JObj kvs) = ''{'' @ dumps_members kvs @ ''}''"
| "dumps_items [] = []"
| "dumps_items [x] = json_dumps x"
| "dumps_items (x # y # xs) = json_dumps x @ '', '' @ dumps_items (y # xs)"
| "dumps_members [] = []"
| "dumps_members [(k, v)] = quote k @ '': '' @ json_dumps v"
| "dumps_members ((k, v) # kv # kvs) = quote k @ '': '' @ json_dumps v @ '', '' @ dumps_members (kv # kvs)"

section \<open>The file system\<close>

text \<open>
  Regular files by path with their contents, and the set of directories. A write is
  \<^verbatim>\<open>open(path, "w")\<close> followed by the data: opening truncates the file, so a write that
  fails after the open leaves a prefix of the data. Whether the operating system lets a
  write complete is not decided by this state; it is an input (\<open>write_fault\<close>).
\<close>

record fsys =
  files :: "string \<rightharpoonup> string"
  dirs :: "string set"

datatype write_fault = Completes | OpenFails | FailsAfter nat

definition exists :: "fsys \<Rightarrow> PosixPath \<Rightarrow> bool" where
  "exists fs p = (files fs (str p) \<noteq> None \<or> str p \<in> dirs fs)"

definition read_file :: "fsys \<Rightarrow> PosixPath \<Rightarrow> exn + string" where
  "read_file fs p = (case files fs (str p) of None \<Rightarrow> Inl OSError | Some content \<Rightarrow> Inr content)"

definition write_file :: "write_fault \<Rightarrow> fsys \<Rightarrow> PosixPath \<Rightarrow> string \<Rightarrow> exn option \<times> fsys" where
  "write_file fault fs p content =
     (case fault of
        Completes \<Rightarrow> (None, fs\<lparr>files := (files fs)(str p \<mapsto> content)\<rparr>)
      | OpenFails \<Rightarrow> (Some OSError, fs)
      | FailsAfter k \<Rightarrow> (Some OSError, fs\<lparr>files := (files fs)(str p \<mapsto> take k content)\<rparr>))"

definition unlink :: "fsys \<Rightarrow> PosixPath \<Rightarrow> exn option \<times> fsys" where
  "unlink fs p =
     (case files fs (str p) of
        None \<Rightarrow> (Some OSError, fs)
      | Some content \<Rightarrow> (None, fs\<lparr>files := (files fs)(str p := None)\<rparr>))"

text \<open>\<^verbatim>\<open>p.mkdir(parents=True, exist_ok=True)\<close>: fails when a regular file is in the way.\<close>

definition lineage :: "PosixPath \<Rightarrow> string list" where
  "lineage p =
     map (\<lambda>k. str (PosixPath (anchor p) (take k (segments p)))) [1 ..< Suc (length (segments p))]"

definition mkdir :: "fsys \<Rightarrow> PosixPath \<Rightarrow> exn option \<times> fsys" where
  "mkdir fs p =
     (if list_ex (\<lambda>d. files fs d \<noteq> None) (lineage p) then (Some OSError, fs)
      else (None, fs\<lparr>dirs := dirs fs \<union> set (lineage p)\<rparr>))"

section \<open>The producer: \<^verbatim>\<open>cups_backend.py\<close>\<close>

definition get_spool_dir :: "string \<Rightarrow> PosixPath" where
  "get_spool_dir username = truediv (truediv (Path ''/tmp'') ''open-pdf-creator-spool'') username"

text \<open>The pending-list file of a user: \<^verbatim>\<open>spool_dir / "pending_jobs.json"\<close>.\<close>

definition pending_file :: "string \<Rightarrow> PosixPath" where
  "pending_file username = truediv (get_spool_dir username) ''pending_jobs.json''"

text \<open>
  \<^verbatim>\<open>safe_title = "".join(c if c.isalnum() or c in "._-" else "_" for c in title)[:50]\<close>
\<close>

definition safe_title :: "string \<Rightarrow> string" where
  "safe_title title =
     take 50 (map (\<lambda>c. if isalnum c \<or> c \<in> set ''._-'' then c else CHR ''_'') title)"

definition job_filename :: "string \<Rightarrow> string \<Rightarrow> string \<Rightarrow> string" where
  "job_filename timestamp job_id title =
     timestamp @ ''_'' @ job_id @ ''_'' @ safe_title title @ ''.pdf''"

text \<open>
  The sanitization as the specification words it: the title is cut to 50 characters,
  then every character that is not alphanumeric, space, dot, underscore or hyphen
  becomes an underscore.
\<close>

definition spec_sanitize :: "string \<Rightarrow> string" where
  "spec_sanitize title =
     map (\<lambda>c. if isalnum c \<or> c \<in> set '' ._-'' then c else CHR ''_'') (take 50 title)"

text \<open>The ASCII letters and digits.\<close>

definition ascii_alnum :: "char \<Rightarrow> bool" where
  "ascii_alnum c =
     (let n = (of_char c :: nat) in
        (48 \<le> n \<and> n \<le> 57) \<or> (65 \<le> n \<and> n \<le> 90) \<or> (97 \<le> n \<and> n \<le> 122))"

text \<open>
  What the outside world decides in one run of the backend: whether the two writes
  complete, whether the socket file is there, whether each transport takes the message,
  and whether a command that starts the GUI can be spawned.
\<close>

record world =
  payload_write :: write_fault
  pending_write :: write_fault
  socket_path_exists :: bool
  unix_connects :: bool
  tcp_connects :: bool
  gui_starts :: bool

text \<open>What one run did beyond the payload write, in order.\<close>

datatype action = PrintDevice | Notify string bool | AppendPending bool | StartGui bool

record result =
  status :: "exn + int"
  fs_after :: fsys
  trace :: "action list"

text \<open>
  The loop that reads standard input in chunks of 65536 bytes until a read returns
  nothing; \<open>written\<close> is what has gone to the job file so far.
\<close>

function copy_stream :: "string \<Rightarrow> string \<Rightarrow> string" where
  "copy_stream stdin written =
     (if take 65536 stdin = [] then written
      else copy_stream (drop 65536 stdin) (written @ take 65536 stdin))"
  by pat_completeness auto
termination
  by (relation "measure (\<lambda>(stdin, written). length stdin)") auto

declare copy_stream.simps [simp del]

text \<open>
  \<^verbatim>\<open>shutil.copy(input_file, job_path)\<close> when an input file is named (and the name is not
  empty), the standard input otherwise.
\<close>

definition write_payload ::
  "write_fault \<Rightarrow> fsys \<Rightarrow> string \<Rightarrow> string option \<Rightarrow> PosixPath \<Rightarrow> exn option \<times> fsys" where
  "write_payload fault fs stdin input_file job_path =
     (if input_file \<noteq> None \<and> input_file \<noteq> Some []
      then (case read_file fs (Path (the input_file)) of
              Inl e \<Rightarrow> (Some e, fs)
            | Inr content \<Rightarrow>
                if str (Path (the input_file)) = str job_path then (Some OSError, fs)
                else write_file fault fs job_path content)
      else write_file fault fs job_path (copy_stream stdin []))"

definition job_info ::
  "string \<Rightarrow> string \<Rightarrow> string \<Rightarrow> int \<Rightarrow> string \<Rightarrow> PosixPath \<Rightarrow> string \<Rightarrow> json" where
  "job_info job_id user title copies options job_path timestamp =
     JObj [(''job_id'', JStr job_id), (''user'', JStr user), (''title'', JStr title),
           (''copies'', JInt copies), (''options'', JStr options),
           (''file_path'', JStr (str job_path)), (''timestamp'', JStr timestamp)]"

text \<open>The bytes \<^verbatim>\<open>notify_gui\<close> sends: the JSON text and one newline.\<close>

definition wire_message :: "json \<Rightarrow> string" where
  "wire_message info = json_dumps info @ [CHR 0x0A]"

definition notify_gui :: "world \<Rightarrow> json \<Rightarrow> bool" where
  "notify_gui orc info =
     (if socket_path_exists orc \<and> unix_connects orc then True
      else if tcp_connects orc then True
      else False)"

text \<open>\<^verbatim>\<open>pending_jobs.append(job_info)\<close>: only a list has \<^verbatim>\<open>append\<close>.\<close>

definition list_append :: "json \<Rightarrow> json \<Rightarrow> exn + json" where
  "list_append pending x = (case pending of JArr xs \<Rightarrow> Inr (JArr (xs @ [x])) | _ \<Rightarrow> Inl AttributeError)"

text \<open>
  \<^verbatim>\<open>start_gui_with_job\<close>. First the pending jobs already on disk: none when the file is
  missing, cannot be read or is not JSON; any other exception of the load escapes.
\<close>

definition load_existing :: "env \<Rightarrow> fsys \<Rightarrow> string \<Rightarrow> exn + json" where
  "load_existing env fs user =
     (if exists fs (pending_file user)
      then (case read_file fs (pending_file user) of
              Inl e \<Rightarrow> Inr (JArr [])
            | Inr content \<Rightarrow>
                (case json_load env content of
                   Inl e \<Rightarrow> if e = JSONDecodeError \<or> e = OSError then Inr (JArr []) else Inl e
                 | Inr v \<Rightarrow> Inr v))
      else Inr (JArr []))"

text \<open>
  Then the new job is appended and the list written back; the write stands in no
  \<^verbatim>\<open>try\<close>. Last a command that starts the GUI is spawned, and no failure of that escapes.
\<close>

definition start_gui_with_job ::
  "env \<Rightarrow> world \<Rightarrow> fsys \<Rightarrow> json \<Rightarrow> string \<Rightarrow> exn option \<times> fsys \<times> action list" where
  "start_gui_with_job env orc fs info user =
     (case load_existing env fs user of
        Inl e \<Rightarrow> (Some e, fs, [])
      | Inr pending_jobs \<Rightarrow>
          (case list_append pending_jobs info of
             Inl e \<Rightarrow> (Some e, fs, [])
           | Inr pending_jobs' \<Rightarrow>
               (case write_file (pending_write orc) fs (pending_file user) (json_dumps pending_jobs') of
                  (Some e, fs') \<Rightarrow> (Some e, fs', [AppendPending False])
                | (None, fs') \<Rightarrow> (None, fs', [AppendPending True, StartGui (gui_starts orc)]))))"

text \<open>
  \<^verbatim>\<open>process_job\<close>. Creating the parent of the spool directory and the spool directory
  is best effort (every exception is swallowed); the permission and ownership calls change
  nothing that this state records.
\<close>

definition ensure_spool_dir :: "fsys \<Rightarrow> string \<Rightarrow> fsys" where
  "ensure_spool_dir fs user =
     (let spool_dir = get_spool_dir user;
          fs1 = snd (mkdir fs (parent spool_dir))
      in snd (mkdir fs1 spool_dir))"

text \<open>The job file: \<^verbatim>\<open>spool_dir / f"{timestamp}_{job_id}_{safe_title}.pdf"\<close>.\<close>

definition job_path :: "string \<Rightarrow> string \<Rightarrow> string \<Rightarrow> string \<Rightarrow> PosixPath" where
  "job_path user timestamp job_id title = truediv (get_spool_dir user) (job_filename timestamp job_id title)"

text \<open>
  \<open>now\<close> is \<^verbatim>\<open>datetime.now().strftime("%Y%m%d_%H%M%S")\<close>. A payload that cannot be
  written ends the run with 1; an exception of \<^verbatim>\<open>start_gui_with_job\<close> escapes.
\<close>

definition process_job ::
  "env \<Rightarrow> world \<Rightarrow> string \<Rightarrow> fsys \<Rightarrow> string \<Rightarrow>
   string \<Rightarrow> string \<Rightarrow> string \<Rightarrow> int \<Rightarrow> string \<Rightarrow> string option \<Rightarrow> result" where
  "process_job env orc now fs stdin job_id user title copies options input_file =
     (let fs2 = ensure_spool_dir fs user;
          timestamp = now;
          path = job_path user timestamp job_id title
      in case write_payload (payload_write orc) fs2 stdin input_file path of
           (Some e, fs3) \<Rightarrow> \<lparr>status = Inr 1, fs_after = fs3, trace = []\<rparr>
         | (None, fs3) \<Rightarrow>
             (let info = job_info job_id user title copies options path timestamp in
              if notify_gui orc info
              then \<lparr>status = Inr 0, fs_after = fs3, trace = [Notify (wire_message info) True]\<rparr>
              else (case start_gui_with_job env orc fs3 info user of
                      (Some e, fs4, acts) \<Rightarrow>
                        \<lparr>status = Inl e, fs_after = fs4, trace = Notify (wire_message info) False # acts\<rparr>
                    | (None, fs4, acts) \<Rightarrow>
                        \<lparr>status = Inr 0, fs_after = fs4, trace = Notify (wire_message info) False # acts\<rparr>)))"

text \<open>\<^verbatim>\<open>main\<close>; \<open>argv\<close> is \<^verbatim>\<open>sys.argv\<close>, the program name first.\<close>

definition main :: "env \<Rightarrow> world \<Rightarrow> string \<Rightarrow> fsys \<Rightarrow> string \<Rightarrow> string list \<Rightarrow> result" where
  "main env orc now fs stdin argv =
     (let argc = length argv in
      if argc = 1 then \<lparr>status = Inr 0, fs_after = fs, trace = [PrintDevice]\<rparr>
      else if argc < 6 then \<lparr>status = Inr 1, fs_after = fs, trace = []\<rparr>
      else process_job env orc now fs stdin (argv ! 1) (argv ! 2) (argv ! 3)
             (case int_of_str env (argv ! 4) of None \<Rightarrow> 1 | Some n \<Rightarrow> n)
             (argv ! 5) (if argc > 6 then Some (argv ! 6) else None))"

text \<open>
  The script's last block: \<^verbatim>\<open>sys.exit(main())\<close>, and \<^verbatim>\<open>sys.exit(1)\<close> for any
  exception that escapes \<^verbatim>\<open>main\<close>.
\<close>

definition exit_status :: "result \<Rightarrow> int" where
  "exit_status r = (case status r of Inl e \<Rightarrow> 1 | Inr code \<Rightarrow> code)"

section \<open>The consumer: \<^verbatim>\<open>print_handler.py\<close>\<close>

text \<open>
  A dataclass checks no types: every field but \<open>file_path\<close> holds whatever value the
  dict had.
\<close>

record PrintJob =
  job_id :: json
  user :: json
  title :: json
  copies :: json
  options :: json
  file_path :: PosixPath
  timestamp :: json
  processed :: bool

definition get :: "(string \<times> json) list \<Rightarrow> string \<Rightarrow> json \<Rightarrow> json" where
  "get d key dflt = (case map_of d key of None \<Rightarrow> dflt | Some v \<Rightarrow> v)"

text \<open>
  \<^verbatim>\<open>PrintJob.from_dict\<close>. Only a dict has \<^verbatim>\<open>get\<close>, and \<^verbatim>\<open>Path\<close> takes only a string.
\<close>

definition from_dict :: "string \<Rightarrow> json \<Rightarrow> exn + PrintJob" where
  "from_dict now data =
     (case data of
        JObj d \<Rightarrow>
          (case get d ''file_path'' (JStr []) of
             JStr s \<Rightarrow>
               Inr \<lparr>job_id = get d ''job_id'' (JStr []),
                    user = get d ''user'' (JStr []),
                    title = get d ''title'' (JStr ''Untitled''),
                    copies = get d ''copies'' (JInt 1),
                    options = get d ''options'' (JStr []),
                    file_path = Path s,
                    timestamp = get d ''timestamp'' (JStr now),
                    processed = False\<rparr>
           | _ \<Rightarrow> Inl TypeError)
      | _ \<Rightarrow> Inl AttributeError)"

text \<open>The dict \<^verbatim>\<open>_save_pending_jobs\<close> writes for a job.\<close>

definition to_dict :: "PrintJob \<Rightarrow> json" where
  "to_dict j =
     JObj [(''job_id'', job_id j), (''user'', user j), (''title'', title j),
           (''copies'', copies j), (''options'', options j),
           (''file_path'', JStr (str (file_path j))), (''timestamp'', timestamp j)]"

text \<open>
  The handler: its flag, its list of jobs, and the jobs it has emitted through the signal
  \<^verbatim>\<open>job_received\<close>, oldest first. What the receiver of the signal does with a job
  is outside this model; when it acknowledges a job it calls \<open>mark_job_processed\<close>.
\<close>

record handler =
  running :: bool
  pending_jobs :: "PrintJob list"
  job_received :: "PrintJob list"

definition accept_job :: "handler \<Rightarrow> PrintJob \<Rightarrow> handler" where
  "accept_job h job =
     h\<lparr>pending_jobs := pending_jobs h @ [job], job_received := job_received h @ [job]\<rparr>"

definition get_pending_jobs :: "handler \<Rightarrow> PrintJob list" where
  "get_pending_jobs h = filter (\<lambda>j. \<not> processed j) (pending_jobs h)"

text \<open>\<^verbatim>\<open>for data in jobs_data\<close>: a list gives its items, a dict its keys, a string its characters.\<close>

definition iterate :: "json \<Rightarrow> exn + json list" where
  "iterate v =
     (case v of
        JArr xs \<Rightarrow> Inr xs
      | JObj d \<Rightarrow> Inr (map (\<lambda>kv. JStr (fst kv)) d)
      | JStr s \<Rightarrow> Inr (map (\<lambda>c. JStr [c]) s)
      | _ \<Rightarrow> Inl TypeError)"

fun load_entries :: "string \<Rightarrow> fsys \<Rightarrow> handler \<Rightarrow> json list \<Rightarrow> exn option \<times> handler" where
  "load_entries now fs h [] = (None, h)"
| "load_entries now fs h (data # rest) =
     (case from_dict now data of
        Inl e \<Rightarrow> (Some e, h)
      | Inr job \<Rightarrow>
          load_entries now fs (if exists fs (file_path job) then accept_job h job else h) rest)"

text \<open>
  \<^verbatim>\<open>_load_pending_jobs\<close>; \<open>username\<close> is \<^verbatim>\<open>getpass.getuser()\<close>. Only
  \<^verbatim>\<open>JSONDecodeError\<close> and \<^verbatim>\<open>OSError\<close> are caught.
\<close>

definition load_pending_jobs ::
  "env \<Rightarrow> string \<Rightarrow> string \<Rightarrow> fsys \<Rightarrow> handler \<Rightarrow> exn option \<times> fsys \<times> handler" where
  "load_pending_jobs env now username fs h =
     (if \<not> exists fs (pending_file username) then (None, fs, h)
      else (case read_file fs (pending_file username) of
              Inl e \<Rightarrow> (None, fs, h)
            | Inr content \<Rightarrow>
                (case json_load env content of
                   Inl e \<Rightarrow> if e = JSONDecodeError \<or> e = OSError then (None, fs, h) else (Some e, fs, h)
                 | Inr jobs_data \<Rightarrow>
                     (case iterate jobs_data of
                        Inl e \<Rightarrow> (Some e, fs, h)
                      | Inr entries \<Rightarrow>
                          (case load_entries now fs h entries of
                             (Some e, h') \<Rightarrow> (Some e, fs, h')
                           | (None, h') \<Rightarrow> (None, snd (unlink fs (pending_file username)), h'))))))"

text \<open>
  \<^verbatim>\<open>_save_pending_jobs\<close>. The \<^verbatim>\<open>mkdir\<close> and the \<^verbatim>\<open>unlink\<close> stand outside the
  \<^verbatim>\<open>try\<close>; an \<^verbatim>\<open>OSError\<close> of the write is caught.
\<close>

definition save_pending_jobs ::
  "write_fault \<Rightarrow> string \<Rightarrow> fsys \<Rightarrow> handler \<Rightarrow> exn option \<times> fsys" where
  "save_pending_jobs fault username fs h =
     (case mkdir fs (get_spool_dir username) of
        (Some e, fs1) \<Rightarrow> (Some e, fs1)
      | (None, fs1) \<Rightarrow>
          (let unprocessed = filter (\<lambda>j. \<not> processed j) (pending_jobs h) in
           if unprocessed = []
           then (if exists fs1 (pending_file username) then unlink fs1 (pending_file username)
                 else (None, fs1))
           else (None, snd (write_file fault fs1 (pending_file username)
                              (json_dumps (JArr (map to_dict unprocessed)))))))"

text \<open>
  \<^verbatim>\<open>mark_job_processed\<close>: the job is the object at index \<open>i\<close> of the handler's list (an
  index out of range is a job object the handler does not hold).
\<close>

definition mark_job_processed ::
  "write_fault \<Rightarrow> string \<Rightarrow> fsys \<Rightarrow> handler \<Rightarrow> nat \<Rightarrow> exn option \<times> fsys \<times> handler" where
  "mark_job_processed fault username fs h i =
     (let h' = (if i < length (pending_jobs h)
                then h\<lparr>pending_jobs := (pending_jobs h)[i := (pending_jobs h ! i)\<lparr>processed := True\<rparr>]\<rparr>
                else h)
      in case save_pending_jobs fault username fs h' of (e, fs') \<Rightarrow> (e, fs', h'))"

text \<open>
  A connection is what its successive \<^verbatim>\<open>recv(4096)\<close> calls return; when the list is
  used up the peer has closed and \<^verbatim>\<open>recv\<close> returns no bytes.
\<close>

datatype recv = Data string | ConnectionError

fun read_request :: "string \<Rightarrow> recv list \<Rightarrow> exn + string" where
  "read_request data [] = Inr data"
| "read_request data (ConnectionError # rest) = Inl OSError"
| "read_request data (Data chunk # rest) =
     (if chunk = [] then Inr data
      else if CHR 0x0A \<in> set (data @ chunk) then Inr (data @ chunk)
      else read_request (data @ chunk) rest)"

text \<open>
  \<^verbatim>\<open>_handle_connection\<close>: the buffered bytes go through
  \<^verbatim>\<open>json.loads(data.decode().strip())\<close>, every exception is caught, and the connection
  is closed in the \<^verbatim>\<open>finally\<close> block (the second component).
\<close>

definition parse_request :: "env \<Rightarrow> string \<Rightarrow> exn + json" where
  "parse_request env data =
     (case utf8_decode env data of Inl e \<Rightarrow> Inl e | Inr text \<Rightarrow> json_loads env (strip text))"

definition handle_connection :: "env \<Rightarrow> string \<Rightarrow> handler \<Rightarrow> recv list \<Rightarrow> handler \<times> bool" where
  "handle_connection env now h conn =
     (case read_request [] conn of
        Inl e \<Rightarrow> (h, True)
      | Inr data \<Rightarrow>
          if data = [] then (h, True)
          else (case parse_request env data of
                  Inl e \<Rightarrow> (h, True)
                | Inr job_data \<Rightarrow>
                    (case from_dict now job_data of
                       Inl e \<Rightarrow> (h, True)
                     | Inr job \<Rightarrow> (accept_job h job, True))))"

text \<open>
  The loop of \<^verbatim>\<open>_unix_listener\<close> and of \<^verbatim>\<open>_tcp_listener\<close> over what successive
  \<^verbatim>\<open>accept\<close> calls give: a timeout, a connection (with the clock reading when it is
  handled), or another exception, which ends the loop.
\<close>

datatype accepted = Timeout | Connection string "recv list" | AcceptError

fun accept_loop :: "env \<Rightarrow> handler \<Rightarrow> accepted list \<Rightarrow> handler" where
  "accept_loop env h [] = h"
| "accept_loop env h (a # rest) =
     (if \<not> running h then h
      else (case a of
              Timeout \<Rightarrow> accept_loop env h rest
            | Connection now conn \<Rightarrow> accept_loop env (fst (handle_connection env now h conn)) rest
            | AcceptError \<Rightarrow> h))"

text \<open>
  \<^verbatim>\<open>start\<close> up to the creation of the two listener threads, which happens only when the
  pending jobs were loaded without an exception.
\<close>

definition start :: "env \<Rightarrow> string \<Rightarrow> string \<Rightarrow> fsys \<Rightarrow> handler \<Rightarrow> exn option \<times> fsys \<times> handler" where
  "start env now username fs h =
     (if running h then (None, fs, h)
      else load_pending_jobs env now username fs (h\<lparr>running := True\<rparr>))"

text \<open>
  The service from \<^verbatim>\<open>start\<close> on: the two listener loops take turns in any order, each
  turn a run of one loop over some \<^verbatim>\<open>accept\<close> results.
\<close>

definition serve ::
  "env \<Rightarrow> string \<Rightarrow> string \<Rightarrow> fsys \<Rightarrow> handler \<Rightarrow> accepted list list \<Rightarrow> exn option \<times> fsys \<times> handler" where
  "serve env now username fs h turns =
     (case start env now username fs h of
        (Some e, fs', h') \<Rightarrow> (Some e, fs', h')
      | (None, fs', h') \<Rightarrow> (None, fs', foldl (accept_loop env) h' turns))"

text \<open>
  The paths that \<open>Path\<close> and \<open>truediv\<close> build: one of the three anchors, and segments
  that are not empty, not a dot and hold no slash.
\<close>

definition normal_path :: "PosixPath \<Rightarrow> bool" where
  "normal_path p =
     ((anchor p = [] \<or> anchor p = ''/'' \<or> anchor p = ''//'') \<and>
      list_all (\<lambda>s. s \<noteq> [] \<and> s \<noteq> ''.'' \<and> CHR ''/'' \<notin> set s) (segments p))"

text \<open>
  An environment for worked examples: bytes decode as themselves, \<^verbatim>\<open>json.loads\<close> knows
  the texts of a table and refuses every other text, and \<^verbatim>\<open>int\<close> reads decimal digits.
\<close>

definition digits_value :: "string \<Rightarrow> int option" where
  "digits_value s =
     (if s \<noteq> [] \<and> list_all (\<lambda>c. 48 \<le> (of_char c :: nat) \<and> (of_char c :: nat) \<le> 57) s
      then Some (foldl (\<lambda>n c. 10 * n + (of_char c - 48)) 0 s) else None)"

definition table_env :: "(string \<times> json) list \<Rightarrow> env" where
  "table_env table =
     \<lparr>utf8_decode = Inr,
      json_loads = (\<lambda>text. case map_of table text of None \<Rightarrow> Inl JSONDecodeError | Some v \<Rightarrow> Inr v),
      int_of_str = digits_value\<rparr>"

text \<open>
  What the specification says the receiver parses: the bytes of the stream up to the
  first newline.
\<close>

definition spec_request :: "string list \<Rightarrow> string" where
  "spec_request chunks = takeWhile (\<lambda>c. c \<noteq> CHR 0x0A) (concat chunks)"

text \<open>A handler after it has taken several jobs, one after the other.\<close>

definition accept_jobs :: "handler \<Rightarrow> PrintJob list \<Rightarrow> handler" where
  "accept_jobs h jobs =
     h\<lparr>pending_jobs := pending_jobs h @ jobs, job_received := job_received h @ jobs\<rparr>"

text \<open>
  A worked example. Three jobs of the user \<open>alice\<close>; her spool holds the payloads of the
  first and the third and a pending list that names the first and the second.
\<close>

definition report_job :: PrintJob where
  "report_job =
     \<lparr>job_id = JStr ''7'', user = JStr ''alice'', title = JStr ''Report'', copies = JInt 1,
      options = JStr [],
      file_path = PosixPath ''/''
        [''tmp'', ''open-pdf-creator-spool'', ''alice'', ''20240131_093000_7_Report.pdf''],
      timestamp = JStr ''20240131_093000'', processed = False\<rparr>"

definition notes_job :: PrintJob where
  "notes_job =
     \<lparr>job_id = JStr ''8'', user = JStr ''alice'', title = JStr ''Notes'', copies = JInt 2,
      options = JStr ''media=A4'',
      file_path = PosixPath ''/''
        [''tmp'', ''open-pdf-creator-spool'', ''alice'', ''20240131_093500_8_Notes.pdf''],
      timestamp = JStr ''20240131_093500'', processed = False\<rparr>"

definition memo_job :: PrintJob where
  "memo_job =
     \<lparr>job_id = JStr ''9'', user = JStr ''alice'', title = JStr ''Memo'', copies = JInt 1,
      options = JStr [],
      file_path = PosixPath ''/''
        [''tmp'', ''open-pdf-creator-spool'', ''alice'', ''20240131_094000_9_Memo.pdf''],
      timestamp = JStr ''20240131_094000'', processed = False\<rparr>"

definition alice_env :: env where
  "alice_env =
     table_env
       [(''{}'', JObj []),
        (json_dumps (JArr (map to_dict [report_job, notes_job])), JArr (map to_dict [report_job, notes_job])),
        (json_dumps (JArr (map to_dict [report_job, memo_job])), JArr (map to_dict [report_job, memo_job]))]"

definition alice_spool :: fsys where
  "alice_spool =
     \<lparr>files =
        [''/tmp/open-pdf-creator-spool/alice/pending_jobs.json'' \<mapsto>
           json_dumps (JArr (map to_dict [report_job, notes_job])),
         ''/tmp/open-pdf-creator-spool/alice/20240131_093000_7_Report.pdf'' \<mapsto> ''%PDF-1.4 report'',
         ''/tmp/open-pdf-creator-spool/alice/20240131_094000_9_Memo.pdf'' \<mapsto> ''%PDF-1.4 memo''],
      dirs = {''/tmp'', ''/tmp/open-pdf-creator-spool'', ''/tmp/open-pdf-creator-spool/alice''}\<rparr>"

definition idle :: handler where
  "idle = \<lparr>running = False, pending_jobs = [], job_received = []\<rparr>"

text \<open>
  Alice's handler while it holds the three jobs, none acknowledged, and a run of the
  backend in which nothing listens and every write completes.
\<close>

definition busy :: handler where
  "busy = \<lparr>running = True, pending_jobs = [report_job, notes_job, memo_job],
            job_received = [report_job, notes_job, memo_job]\<rparr>"

definition no_listener :: world where
  "no_listener =
     \<lparr>payload_write = Completes, pending_write = Completes, socket_path_exists = False,
      unix_connects = False, tcp_connects = False, gui_starts = True\<rparr>"

text \<open>
  A second worked example: the user \<open>bob\<close> prints an invoice into an empty spool. And a
  run of the backend in which the pending-list file cannot be opened for writing.
\<close>

definition invoice_job :: PrintJob where
  "invoice_job =
     \<lparr>job_id = JStr ''12'', user = JStr ''bob'', title = JStr ''Invoice #42/2024'', copies = JInt 1,
      options = JStr ''media=A4'',
      file_path = job_path ''bob'' ''20240201_101500'' ''12'' ''Invoice #42/2024'',
      timestamp = JStr ''20240201_101500'', processed = False\<rparr>"

definition bob_env :: env where
  "bob_env = table_env [(json_dumps (JArr [to_dict invoice_job]), JArr [to_dict invoice_job])]"

definition empty_spool :: fsys where
  "empty_spool = \<lparr>files = Map.empty, dirs = {''/tmp''}\<rparr>"

definition append_refused :: world where
  "append_refused = no_listener\<lparr>pending_write := OpenFails\<rparr>"

text \<open>
  The acknowledgment as the specification words it: the record of the acknowledged job
  leaves the persisted list, and every other record of that list stays as it is.
\<close>

definition spec_acknowledge :: "json list \<Rightarrow> PrintJob \<Rightarrow> json list" where
  "spec_acknowledge persisted job = filter (\<lambda>record. record \<noteq> to_dict job) persisted"

text \<open>Alice's handler when it holds the report alone.\<close>

definition reporting :: handler where
  "reporting = \<lparr>running = True, pending_jobs = [report_job], job_received = [report_job]\<rparr>"

section \<open>The sanitized title\<close>

lemma safe_title_map:
  "safe_title t = map (\<lambda>c. if isalnum c \<or> c \<in> set ''._-'' then c else CHR ''_'') (take 50 t)"
  by (simp add: safe_title_def take_map)

lemma isalnum_ascii: "(of_char c :: nat) < 128 \<Longrightarrow> isalnum c = ascii_alnum c"
  by (auto simp add: isalnum_def ascii_alnum_def Let_def)

text \<open>
  C2, as the code has it. The title is cut to 50 characters and every character that is
  not alphanumeric, a dot, an underscore or a hyphen becomes an underscore; a space is
  replaced too. The segment has at most 50 characters, each alphanumeric (in Python's
  sense) or one of \<open>._-\<close>; for a title of ASCII characters each lies in
  \<open>[A-Za-z0-9._-]\<close>; and the title \<open>Invoice #42/2024\<close> gives \<open>Invoice__42_2024\<close>.
\<close>

theorem C2_safe_title:
  "safe_title t = map (\<lambda>c. if isalnum c \<or> c \<in> set ''._-'' then c else CHR ''_'') (take 50 t)
   \<and> length (safe_title t) \<le> 50
   \<and> (\<forall>c \<in> set (safe_title t). isalnum c \<or> c \<in> set ''._-'')
   \<and> ((\<forall>c \<in> set t. (of_char c :: nat) < 128) \<longrightarrow>
        (\<forall>c \<in> set (safe_title t). ascii_alnum c \<or> c \<in> set ''._-''))
   \<and> safe_title ''Invoice #42/2024'' = ''Invoice__42_2024''"
proof -
  have a: "length (safe_title t) \<le> 50"
    by (simp add: safe_title_def)
  have b: "\<forall>c \<in> set (safe_title t). isalnum c \<or> c \<in> set ''._-''"
    unfolding safe_title_map by auto
  have c: "(\<forall>c \<in> set t. (of_char c :: nat) < 128) \<longrightarrow>
        (\<forall>c \<in> set (safe_title t). ascii_alnum c \<or> c \<in> set ''._-'')"
  proof (intro impI ballI)
    fix c assume asc: "\<forall>c \<in> set t. (of_char c :: nat) < 128" and c: "c \<in> set (safe_title t)"
    from c obtain d where d: "d \<in> set (take 50 t)"
      and cd: "c = (if isalnum d \<or> d \<in> set ''._-'' then d else CHR ''_'')"
      unfolding safe_title_map by auto
    from d have "d \<in> set t" by (rule in_set_takeD)
    with asc have "(of_char d :: nat) < 128" by blast
    then have "isalnum d = ascii_alnum d" by (rule isalnum_ascii)
    with cd show "ascii_alnum c \<or> c \<in> set ''._-''"
      by (auto split: if_splits)
  qed
  have d: "safe_title ''Invoice #42/2024'' = ''Invoice__42_2024''"
    by (simp add: safe_title_def isalnum_def)
  from a b c d safe_title_map show ?thesis by blast
qed

theorem C2_safe_title_witness:
  "safe_title ''Q3 report (final).pdf'' = ''Q3_report__final_.pdf''
   \<and> CHR ''Q'' \<in> set (safe_title ''Q3 report (final).pdf'')
   \<and> ascii_alnum (CHR ''Q'')"
proof -
  have asc: "\<forall>c \<in> set ''Q3 report (final).pdf''. (of_char c :: nat) < 128"
    by simp
  have v: "safe_title ''Q3 report (final).pdf'' = ''Q3_report__final_.pdf''"
    by (simp add: safe_title_def isalnum_def)
  have m: "CHR ''Q'' \<in> set (safe_title ''Q3 report (final).pdf'')"
    by (simp add: v)
  from C2_safe_title [of "''Q3 report (final).pdf''"] asc m
  have "ascii_alnum (CHR ''Q'') \<or> CHR ''Q'' \<in> set ''._-''" by blast
  then have "ascii_alnum (CHR ''Q'')" by simp
  with v m show ?thesis by blast
qed

text \<open>
  The rule as the specification words it keeps a space, and on the specification's own
  example it gives \<open>Invoice _42_2024\<close>, which is not what the code computes.
\<close>

theorem C2_space_counterexample:
  "safe_title ''Invoice #42/2024'' \<noteq> spec_sanitize ''Invoice #42/2024''"
  by (simp add: safe_title_def spec_sanitize_def isalnum_def)

section \<open>Paths\<close>

lemma split_on_not_Nil: "split_on sep s \<noteq> []"
  by (induction s) (auto split: list.splits)

lemma split_on_no_sep: "sep \<notin> set s \<Longrightarrow> split_on sep s = [s]"
  by (induction s) auto

lemma split_on_append: "split_on sep (a @ sep # b) = split_on sep a @ split_on sep b"
proof (induction a)
  case Nil
  then show ?case by simp
next
  case (Cons c cs)
  then show ?case
    using split_on_not_Nil [of sep cs] by (cases "split_on sep cs") auto
qed

lemma split_on_free: "s \<in> set (split_on sep x) \<Longrightarrow> sep \<notin> set s"
proof (induction x arbitrary: s)
  case Nil
  then show ?case by simp
next
  case (Cons c cs)
  then show ?case
    by (cases "split_on sep cs") (auto split: if_splits)
qed

lemma split_on_join:
  "xs \<noteq> [] \<Longrightarrow> list_all (\<lambda>s. sep \<notin> set s) xs \<Longrightarrow> split_on sep (join [sep] xs) = xs"
proof (induction "[sep]" xs rule: join.induct)
  case 1
  then show ?case by simp
next
  case (2 p)
  then show ?case by (simp add: split_on_no_sep)
next
  case (3 p q ps)
  then show ?case by (simp add: split_on_append split_on_no_sep)
qed

lemma normal_Path: "normal_path (Path s)"
  by (auto simp add: normal_path_def Path_def list_all_iff dest: split_on_free)

lemma filter_normal:
  "list_all (\<lambda>s. s \<noteq> [] \<and> s \<noteq> ''.'' \<and> CHR ''/'' \<notin> set s) xs \<Longrightarrow>
   filter (\<lambda>p. p \<noteq> [] \<and> p \<noteq> ''.'') xs = xs"
  by (induction xs) auto

lemma join_hd:
  "xs \<noteq> [] \<Longrightarrow> hd xs \<noteq> [] \<Longrightarrow> join sep xs \<noteq> [] \<and> hd (join sep xs) = hd (hd xs)"
  by (induction sep xs rule: join.induct) auto

lemma Path_str:
  assumes "normal_path p"
  shows "Path (str p) = p"
proof (cases p)
  case (PosixPath a segs)
  from assms PosixPath have a: "a = [] \<or> a = ''/'' \<or> a = ''//''"
    and segs: "list_all (\<lambda>s. s \<noteq> [] \<and> s \<noteq> ''.'' \<and> CHR ''/'' \<notin> set s) segs"
    by (simp_all add: normal_path_def)
  from segs have free: "list_all (\<lambda>s. CHR ''/'' \<notin> set s) segs"
    by (simp add: list_all_iff)
  have fl: "filter (\<lambda>p. p \<noteq> [] \<and> p \<noteq> ''.'') segs = segs"
    using segs by (rule filter_normal)
  show ?thesis
  proof (cases "segs = []")
    case True
    with a PosixPath show ?thesis
      by (auto simp add: str_def Path_def)
  next
    case False
    then obtain s ss where ss: "segs = s # ss" by (cases segs) auto
    with segs have s: "s \<noteq> []" "CHR ''/'' \<notin> set s" by simp_all
    then obtain c cs where c: "s = c # cs" "c \<noteq> CHR ''/''" by (cases s) auto
    have sp: "split_on (CHR ''/'') (join ''/'' segs) = segs"
      using False free by (rule split_on_join)
    from False ss s have j: "join ''/'' segs \<noteq> []" "hd (join ''/'' segs) = c"
      using join_hd [of segs "''/''"] c by simp_all
    then obtain js where js: "join ''/'' segs = c # js" by (cases "join ''/'' segs") auto
    from a show ?thesis
    proof (elim disjE)
      assume "a = []"
      with PosixPath False sp fl js c show ?thesis
        by (simp add: str_def Path_def)
    next
      assume "a = ''/''"
      with PosixPath False sp fl js c show ?thesis
        by (simp add: str_def Path_def)
    next
      assume "a = ''//''"
      with PosixPath False sp fl js c show ?thesis
        by (simp add: str_def Path_def)
    qed
  qed
qed

lemma normal_truediv: "normal_path p \<Longrightarrow> normal_path (truediv p s)"
  using normal_Path [of s] by (auto simp add: truediv_def normal_path_def Let_def)

lemma normal_get_spool_dir: "normal_path (get_spool_dir u)"
  by (simp add: get_spool_dir_def normal_truediv normal_Path)

lemma split_on_last:
  "s \<noteq> [] \<Longrightarrow> last s \<noteq> sep \<Longrightarrow>
   last (split_on sep s) \<noteq> [] \<and> last (last (split_on sep s)) = last s"
proof (induction s)
  case Nil
  then show ?case by simp
next
  case (Cons c cs)
  show ?case
  proof (cases "cs = []")
    case True
    with Cons.prems show ?thesis by simp
  next
    case False
    with Cons have ih: "last (split_on sep cs) \<noteq> []" "last (last (split_on sep cs)) = last cs"
      by simp_all
    obtain p ps where p: "split_on sep cs = p # ps"
      using split_on_not_Nil [of sep cs] by (cases "split_on sep cs") auto
    with ih False show ?thesis
      by (cases "ps = []") (auto simp add: split_on_not_Nil)
  qed
qed

lemma filter_last:
  "xs \<noteq> [] \<Longrightarrow> P (last xs) \<Longrightarrow> filter P xs \<noteq> [] \<and> last (filter P xs) = last xs"
  by (induction xs rule: rev_induct) auto

lemma Path_last:
  assumes "s \<noteq> []" "last s \<noteq> CHR ''/''" "last s \<noteq> CHR ''.''"
  shows "segments (Path s) \<noteq> [] \<and> last (segments (Path s)) \<noteq> []
         \<and> last (last (segments (Path s))) = last s"
proof -
  let ?xs = "split_on (CHR ''/'') s"
  let ?P = "\<lambda>p::string. p \<noteq> [] \<and> p \<noteq> ''.''"
  from assms have l: "last ?xs \<noteq> []" "last (last ?xs) = last s"
    using split_on_last [of s "CHR ''/''"] by simp_all
  with assms have P: "?P (last ?xs)" by auto
  have ne: "?xs \<noteq> []" by (rule split_on_not_Nil)
  from ne P have "filter ?P ?xs \<noteq> [] \<and> last (filter ?P ?xs) = last ?xs"
    by (rule filter_last)
  with l show ?thesis by (simp add: Path_def)
qed

lemma join_last:
  "xs \<noteq> [] \<Longrightarrow> last xs \<noteq> [] \<Longrightarrow> join sep xs \<noteq> [] \<and> last (join sep xs) = last (last xs)"
  by (induction sep xs rule: join.induct) auto

lemma str_last:
  "segments p \<noteq> [] \<Longrightarrow> last (segments p) \<noteq> [] \<Longrightarrow> last (str p) = last (last (segments p))"
  using join_last [of "segments p" "''/''"] by (simp add: str_def)

lemma truediv_last:
  assumes "s \<noteq> []" "last s \<noteq> CHR ''/''" "last s \<noteq> CHR ''.''"
  shows "last (str (truediv p s)) = last s"
proof -
  from assms have P: "segments (Path s) \<noteq> []" "last (segments (Path s)) \<noteq> []"
    "last (last (segments (Path s))) = last s"
    using Path_last [of s] by simp_all
  then have "segments (truediv p s) \<noteq> [] \<and> last (segments (truediv p s)) = last (segments (Path s))"
    by (simp add: truediv_def Let_def)
  with P show ?thesis by (simp add: str_last)
qed

lemma job_path_not_pending:
  "str (truediv d (job_filename ts jid t)) \<noteq> str (truediv d ''pending_jobs.json'')"
proof -
  have "last (str (truediv d (job_filename ts jid t))) = CHR ''f''"
    using truediv_last [of "job_filename ts jid t" d] by (simp add: job_filename_def)
  moreover have "last (str (truediv d ''pending_jobs.json'')) = CHR ''n''"
    using truediv_last [of "''pending_jobs.json''" d] by simp
  ultimately show ?thesis by auto
qed

section \<open>The job record\<close>

lemma from_dict_object:
  "map_of d ''file_path'' = None \<or> (\<exists>s. map_of d ''file_path'' = Some (JStr s)) \<Longrightarrow>
   from_dict now (JObj d) =
     Inr \<lparr>job_id = get d ''job_id'' (JStr []), user = get d ''user'' (JStr []),
          title = get d ''title'' (JStr ''Untitled''), copies = get d ''copies'' (JInt 1),
          options = get d ''options'' (JStr []),
          file_path = (case map_of d ''file_path'' of Some (JStr s) \<Rightarrow> Path s | _ \<Rightarrow> Path []),
          timestamp = get d ''timestamp'' (JStr now), processed = False\<rparr>"
  by (auto simp add: from_dict_def get_def)

text \<open>
  C10, as the code has it. For every JSON object in which \<open>file_path\<close> is absent or a
  string, \<open>from_dict\<close> builds a job: each of the seven fields is the object's value or,
  when the key is absent, its default (\<open>job_id\<close> empty, \<open>user\<close> empty, \<open>title\<close>
  \<open>Untitled\<close>, \<open>copies\<close> 1, \<open>options\<close> empty, \<open>file_path\<close> the path of the empty
  string, \<open>timestamp\<close> the current time), and \<open>processed\<close> is false.
\<close>

theorem C10_from_dict:
  assumes "map_of d ''file_path'' = None \<or> (\<exists>s. map_of d ''file_path'' = Some (JStr s))"
  shows "\<exists>job. from_dict now (JObj d) = Inr job
     \<and> job_id job = (case map_of d ''job_id'' of None \<Rightarrow> JStr [] | Some v \<Rightarrow> v)
     \<and> user job = (case map_of d ''user'' of None \<Rightarrow> JStr [] | Some v \<Rightarrow> v)
     \<and> title job = (case map_of d ''title'' of None \<Rightarrow> JStr ''Untitled'' | Some v \<Rightarrow> v)
     \<and> copies job = (case map_of d ''copies'' of None \<Rightarrow> JInt 1 | Some v \<Rightarrow> v)
     \<and> options job = (case map_of d ''options'' of None \<Rightarrow> JStr [] | Some v \<Rightarrow> v)
     \<and> file_path job = (case map_of d ''file_path'' of Some (JStr s) \<Rightarrow> Path s | _ \<Rightarrow> Path [])
     \<and> timestamp job = (case map_of d ''timestamp'' of None \<Rightarrow> JStr now | Some v \<Rightarrow> v)
     \<and> \<not> processed job"
  using from_dict_object [OF assms, of now] by (simp add: get_def)

text \<open>
  Two objects with missing keys; the default path, the path of the empty string, is the
  current directory.
\<close>

theorem C10_from_dict_witness:
  "from_dict ''20240131_093000'' (JObj [(''title'', JStr ''Report''), (''copies'', JInt 2)]) =
     Inr \<lparr>job_id = JStr [], user = JStr [], title = JStr ''Report'', copies = JInt 2,
          options = JStr [], file_path = PosixPath [] [], timestamp = JStr ''20240131_093000'',
          processed = False\<rparr>
   \<and> from_dict ''20240131_093000'' (JObj []) =
     Inr \<lparr>job_id = JStr [], user = JStr [], title = JStr ''Untitled'', copies = JInt 1,
          options = JStr [], file_path = PosixPath [] [], timestamp = JStr ''20240131_093000'',
          processed = False\<rparr>
   \<and> str (PosixPath [] []) = ''.''"
proof -
  have a: "map_of [(''title'', JStr ''Report''), (''copies'', JInt 2)] ''file_path'' = None
    \<or> (\<exists>s. map_of [(''title'', JStr ''Report''), (''copies'', JInt 2)] ''file_path'' = Some (JStr s))"
    by simp
  have b: "map_of ([] :: (string \<times> json) list) ''file_path'' = None
    \<or> (\<exists>s. map_of ([] :: (string \<times> json) list) ''file_path'' = Some (JStr s))"
    by simp
  from C10_from_dict [OF a, of "''20240131_093000''"] C10_from_dict [OF b, of "''20240131_093000''"]
  show ?thesis
    by (auto simp add: Path_def str_def)
qed

text \<open>
  An object whose \<open>file_path\<close> is not a string is rejected: \<^verbatim>\<open>Path(None)\<close> raises
  \<^verbatim>\<open>TypeError\<close>.
\<close>

theorem C10_file_path_counterexample:
  "from_dict ''20240131_093000'' (JObj [(''job_id'', JStr ''7''), (''file_path'', JNull)]) = Inl TypeError"
  by (simp add: from_dict_def get_def)

section \<open>Connections\<close>

lemma handle_connection_closes: "snd (handle_connection env now h conn) = True"
  by (simp add: handle_connection_def split: sum.splits)

lemma handle_connection_rejected:
  assumes "\<forall>data d. read_request [] conn = Inr data \<longrightarrow> parse_request env data \<noteq> Inr (JObj d)"
  shows "handle_connection env now h conn = (h, True)"
proof (cases "read_request [] conn")
  case (Inl e)
  then show ?thesis by (simp add: handle_connection_def)
next
  case (Inr data)
  with assms have no: "\<forall>d. parse_request env data \<noteq> Inr (JObj d)" by blast
  show ?thesis
  proof (cases "parse_request env data")
    case (Inl e)
    with Inr show ?thesis by (simp add: handle_connection_def)
  next
    case r: (Inr v)
    with no have "\<forall>d. v \<noteq> JObj d" by simp
    then have "from_dict now v = Inl AttributeError"
      by (cases v) (simp_all add: from_dict_def)
    with Inr r show ?thesis by (simp add: handle_connection_def)
  qed
qed

text \<open>
  C9. When the bytes buffered from a connection do not parse as a JSON object (nothing was
  read, the read failed, the bytes do not decode, the text is not JSON, or the JSON is
  not an object), the handler is unchanged (no job is emitted and none is added), the
  connection is closed, and the accept loop goes on with the next \<^verbatim>\<open>accept\<close>.
\<close>

theorem C9_malformed_connection:
  assumes "running h"
    and "\<forall>data d. read_request [] conn = Inr data \<longrightarrow> parse_request env data \<noteq> Inr (JObj d)"
  shows "handle_connection env now h conn = (h, True)
     \<and> accept_loop env h (Connection now conn # rest) = accept_loop env h rest"
  using assms handle_connection_rejected [of conn env now h] by simp

text \<open>A malformed message, then a well-formed one on the next connection.\<close>

theorem C9_malformed_connection_witness:
  "accept_loop (table_env [(''{}'', JObj [])])
      \<lparr>running = True, pending_jobs = [], job_received = []\<rparr>
      [Connection ''20240131_093000'' [Data (''{oops'' @ [CHR 0x0A])],
       Connection ''20240131_093001'' [Data (''{}'' @ [CHR 0x0A])]]
    = \<lparr>running = True,
       pending_jobs = [\<lparr>job_id = JStr [], user = JStr [], title = JStr ''Untitled'', copies = JInt 1,
          options = JStr [], file_path = PosixPath [] [], timestamp = JStr ''20240131_093001'',
          processed = False\<rparr>],
       job_received = [\<lparr>job_id = JStr [], user = JStr [], title = JStr ''Untitled'', copies = JInt 1,
          options = JStr [], file_path = PosixPath [] [], timestamp = JStr ''20240131_093001'',
          processed = False\<rparr>]\<rparr>"
proof -
  let ?env = "table_env [(''{}'', JObj [])]"
  let ?h = "\<lparr>running = True, pending_jobs = [], job_received = []\<rparr>"
  let ?bad = "[Data (''{oops'' @ [CHR 0x0A])]"
  have r: "running ?h" by simp
  have p: "\<forall>data d. read_request [] ?bad = Inr data \<longrightarrow> parse_request ?env data \<noteq> Inr (JObj d)"
    by (simp add: parse_request_def table_env_def strip_def isspace_def)
  have good: "handle_connection ?env ''20240131_093001'' ?h [Data (''{}'' @ [CHR 0x0A])]
     = (accept_job ?h \<lparr>job_id = JStr [], user = JStr [], title = JStr ''Untitled'', copies = JInt 1,
          options = JStr [], file_path = PosixPath [] [], timestamp = JStr ''20240131_093001'',
          processed = False\<rparr>, True)"
    by (simp add: handle_connection_def parse_request_def table_env_def strip_def isspace_def
        from_dict_def get_def Path_def)
  have "accept_loop ?env ?h
      [Connection ''20240131_093000'' ?bad, Connection ''20240131_093001'' [Data (''{}'' @ [CHR 0x0A])]]
     = accept_loop ?env ?h [Connection ''20240131_093001'' [Data (''{}'' @ [CHR 0x0A])]]"
    using C9_malformed_connection [OF r p] by blast
  also have "\<dots> = fst (handle_connection ?env ''20240131_093001'' ?h [Data (''{}'' @ [CHR 0x0A])])"
    by simp
  also have "\<dots> = accept_job ?h \<lparr>job_id = JStr [], user = JStr [], title = JStr ''Untitled'',
          copies = JInt 1, options = JStr [], file_path = PosixPath [] [],
          timestamp = JStr ''20240131_093001'', processed = False\<rparr>"
    by (simp only: good fst_conv)
  finally have e: "accept_loop ?env ?h
      [Connection ''20240131_093000'' ?bad, Connection ''20240131_093001'' [Data (''{}'' @ [CHR 0x0A])]]
     = accept_job ?h \<lparr>job_id = JStr [], user = JStr [], title = JStr ''Untitled'',
          copies = JInt 1, options = JStr [], file_path = PosixPath [] [],
          timestamp = JStr ''20240131_093001'', processed = False\<rparr>" .
  show ?thesis
    unfolding e by (simp add: accept_job_def)
qed

lemma read_request_chunks:
  "\<forall>c \<in> set pre. c \<noteq> [] \<and> CHR 0x0A \<notin> set c \<Longrightarrow> CHR 0x0A \<notin> set data \<Longrightarrow>
   read_request data (map Data pre @ rest) = read_request (data @ concat pre) rest"
  by (induction pre arbitrary: data) auto

lemma read_request_newline:
  "CHR 0x0A \<in> set c \<Longrightarrow> read_request data (Data c # rest) = Inr (data @ c)"
  by auto

text \<open>
  C4, as the code has it. The receiver reads chunk after chunk until the buffer holds a
  newline or the peer closes, and parses the whole buffer: every chunk read so far, the
  bytes that follow the first newline in its chunk included. Chunks after that one are
  never read and change nothing.
\<close>

theorem C4_read_request:
  assumes "\<forall>c \<in> set pre. c \<noteq> [] \<and> CHR 0x0A \<notin> set c"
  shows "read_request [] (map Data pre) = Inr (concat pre)
    \<and> (CHR 0x0A \<in> set c \<longrightarrow>
         read_request [] (map Data pre @ Data c # rest) = Inr (concat pre @ c)
       \<and> handle_connection env now h (map Data pre @ Data c # rest)
           = handle_connection env now h [Data (concat pre @ c)])"
proof -
  have a: "read_request [] (map Data pre) = Inr (concat pre)"
    using read_request_chunks [OF assms, of "[]" "[]"] by simp
  have b: "read_request [] (map Data pre @ Data c # rest) = Inr (concat pre @ c)"
    if "CHR 0x0A \<in> set c"
    using read_request_chunks [OF assms, of "[]" "Data c # rest"] that
    by (simp add: read_request_newline del: read_request.simps)
  have c: "read_request [] [Data (concat pre @ c)] = Inr (concat pre @ c)"
    if "CHR 0x0A \<in> set c"
    using that by auto
  from a b c show ?thesis
    by (simp add: handle_connection_def)
qed

text \<open>Three chunks; the third is never read, the tail of the second is kept.\<close>

theorem C4_read_request_witness:
  "read_request [] [Data ''[1, '', Data (''2]'' @ [CHR 0x0A] @ ''[3, ''), Data ''4]'']
     = Inr (''[1, 2]'' @ [CHR 0x0A] @ ''[3, '')"
proof -
  have p: "\<forall>c \<in> set [''[1, '']. c \<noteq> [] \<and> CHR 0x0A \<notin> set c" by simp
  have n: "CHR 0x0A \<in> set (''2]'' @ [CHR 0x0A] @ ''[3, '')" by simp
  from C4_read_request [OF p, of "''2]'' @ [CHR 0x0A] @ ''[3, ''" "[Data ''4]'']"] n
  show ?thesis by simp
qed

text \<open>
  Two messages arriving in one chunk: the bytes up to the first newline are those of a
  single message, yet the whole chunk is parsed and no job is produced.
\<close>

theorem C4_same_chunk_counterexample:
  "spec_request [''{}'' @ [CHR 0x0A] @ ''{}'' @ [CHR 0x0A]] = spec_request [''{}'' @ [CHR 0x0A]]
   \<and> handle_connection (table_env [(''{}'', JObj [])]) ''20240131_093000''
        \<lparr>running = True, pending_jobs = [], job_received = []\<rparr> [Data (''{}'' @ [CHR 0x0A])]
     \<noteq> handle_connection (table_env [(''{}'', JObj [])]) ''20240131_093000''
        \<lparr>running = True, pending_jobs = [], job_received = []\<rparr>
        [Data (''{}'' @ [CHR 0x0A] @ ''{}'' @ [CHR 0x0A])]"
  by (simp add: spec_request_def handle_connection_def parse_request_def table_env_def strip_def
      isspace_def from_dict_def get_def accept_job_def)

section \<open>Loading the pending jobs\<close>

lemma accept_jobs_Nil: "accept_jobs h [] = h"
  by (simp add: accept_jobs_def)

lemma accept_jobs_Cons: "accept_jobs (accept_job h j) js = accept_jobs h (j # js)"
  by (simp add: accept_jobs_def accept_job_def)

lemma load_entries_jobs:
  "map (from_dict now) entries = map Inr jobs \<Longrightarrow>
   load_entries now fs h entries
     = (None, accept_jobs h (filter (\<lambda>j. exists fs (file_path j)) jobs))"
proof (induction entries arbitrary: h jobs)
  case Nil
  then show ?case by (simp add: accept_jobs_Nil)
next
  case (Cons e es)
  then obtain j js where jobs: "jobs = j # js" and j: "from_dict now e = Inr j"
    and js: "map (from_dict now) es = map Inr js"
    by (cases jobs) auto
  show ?case
    using Cons.IH [OF js] by (simp add: jobs j accept_jobs_Cons)
qed

lemma load_pending_jobs_list:
  assumes content: "files fs (str (pending_file username)) = Some content"
    and parsed: "json_load env content = Inr (JArr entries)"
    and jobs: "map (from_dict now) entries = map Inr jobs"
  shows "load_pending_jobs env now username fs h
     = (None, fs\<lparr>files := (files fs)(str (pending_file username) := None)\<rparr>,
        accept_jobs h (filter (\<lambda>j. exists fs (file_path j)) jobs))"
  using content parsed load_entries_jobs [OF jobs, of fs h]
  by (simp add: load_pending_jobs_def exists_def read_file_def iterate_def unlink_def)

lemma load_pending_jobs_absent:
  "files fs (str (pending_file username)) = None \<Longrightarrow>
   load_pending_jobs env now username fs h = (None, fs, h)"
  by (simp add: load_pending_jobs_def exists_def read_file_def)

lemma handle_connection_received:
  "prefix (job_received h) (job_received (fst (handle_connection env now h conn)))"
  by (simp add: handle_connection_def accept_job_def split: sum.splits)

lemma accept_loop_received:
  "prefix (job_received h) (job_received (accept_loop env h accs))"
proof (induction accs arbitrary: h)
  case Nil
  then show ?case by simp
next
  case (Cons a accs)
  show ?case
  proof (cases a)
    case Timeout
    with Cons show ?thesis by simp
  next
    case (Connection now conn)
    have "prefix (job_received h) (job_received (fst (handle_connection env now h conn)))"
      by (rule handle_connection_received)
    also have "prefix \<dots> (job_received (accept_loop env (fst (handle_connection env now h conn)) accs))"
      by (rule Cons.IH)
    finally show ?thesis using Connection by simp
  next
    case AcceptError
    then show ?thesis by simp
  qed
qed

lemma turns_received:
  "prefix (job_received h) (job_received (foldl (accept_loop env) h turns))"
proof (induction turns arbitrary: h)
  case Nil
  then show ?case by simp
next
  case (Cons t turns)
  have "prefix (job_received h) (job_received (accept_loop env h t))"
    by (rule accept_loop_received)
  also have "prefix \<dots> (job_received (foldl (accept_loop env) (accept_loop env h t) turns))"
    by (rule Cons.IH)
  finally show ?case by simp
qed

text \<open>
  C8. When the handler starts with a pending list of well-formed entries, the jobs whose
  payload path exists are emitted in the order of the list, an entry whose payload is
  gone is passed over with no event and no exception, and whatever the two listener loops
  emit later comes after these jobs.
\<close>

theorem C8_startup_order:
  assumes "\<not> running h"
    and "files fs (str (pending_file username)) = Some content"
    and "json_load env content = Inr (JArr entries)"
    and "map (from_dict now) entries = map Inr jobs"
  shows "\<exists>fs' h'. serve env now username fs h turns = (None, fs', h')
     \<and> job_received (snd (snd (start env now username fs h)))
         = job_received h @ filter (\<lambda>j. exists fs (file_path j)) jobs
     \<and> prefix (job_received h @ filter (\<lambda>j. exists fs (file_path j)) jobs) (job_received h')"
proof -
  let ?kept = "filter (\<lambda>j. exists fs (file_path j)) jobs"
  let ?fs1 = "fs\<lparr>files := (files fs)(str (pending_file username) := None)\<rparr>"
  let ?h1 = "accept_jobs (h\<lparr>running := True\<rparr>) ?kept"
  have st: "start env now username fs h = (None, ?fs1, ?h1)"
    using assms(1) load_pending_jobs_list [OF assms(2-4)] by (simp add: start_def)
  have r: "job_received ?h1 = job_received h @ ?kept"
    by (simp add: accept_jobs_def)
  have sv: "serve env now username fs h turns = (None, ?fs1, foldl (accept_loop env) ?h1 turns)"
    by (simp add: serve_def st)
  have "prefix (job_received ?h1) (job_received (foldl (accept_loop env) ?h1 turns))"
    by (rule turns_received)
  with r sv st show ?thesis by simp
qed

text \<open>
  C6, as the code has it. Loading a pending list of well-formed entries takes the jobs
  whose payload path exists, in order, and deletes the file; a second load right after
  finds no file and takes nothing.
\<close>

theorem C6_load_twice:
  assumes "files fs (str (pending_file username)) = Some content"
    and "json_load env content = Inr (JArr entries)"
    and "map (from_dict now) entries = map Inr jobs"
  shows "\<exists>fs1 h1. load_pending_jobs env now username fs h = (None, fs1, h1)
     \<and> pending_jobs h1 = pending_jobs h @ filter (\<lambda>j. exists fs (file_path j)) jobs
     \<and> files fs1 (str (pending_file username)) = None
     \<and> load_pending_jobs env now' username fs1 h1 = (None, fs1, h1)"
proof -
  let ?fs1 = "fs\<lparr>files := (files fs)(str (pending_file username) := None)\<rparr>"
  let ?h1 = "accept_jobs h (filter (\<lambda>j. exists fs (file_path j)) jobs)"
  have a: "load_pending_jobs env now username fs h = (None, ?fs1, ?h1)"
    by (rule load_pending_jobs_list [OF assms])
  have b: "load_pending_jobs env now' username ?fs1 ?h1 = (None, ?fs1, ?h1)"
    by (rule load_pending_jobs_absent) simp
  from a b show ?thesis by (simp add: accept_jobs_def)
qed

section \<open>The worked example\<close>

lemma from_dict_to_dict:
  "normal_path (file_path j) \<Longrightarrow> from_dict now (to_dict j) = Inr (j\<lparr>processed := False\<rparr>)"
  by (simp add: from_dict_def to_dict_def get_def Path_str)

lemma normal_samples:
  "normal_path (file_path report_job)" "normal_path (file_path notes_job)"
  "normal_path (file_path memo_job)"
  by (simp_all add: normal_path_def report_job_def notes_job_def memo_job_def)

lemma from_dict_samples:
  "from_dict now (to_dict report_job) = Inr report_job"
  "from_dict now (to_dict notes_job) = Inr notes_job"
  "from_dict now (to_dict memo_job) = Inr memo_job"
  using normal_samples
  by (simp_all add: from_dict_to_dict) (simp_all add: report_job_def notes_job_def memo_job_def)

lemma pending_file_alice:
  "str (pending_file ''alice'') = ''/tmp/open-pdf-creator-spool/alice/pending_jobs.json''"
  by (simp add: pending_file_def get_spool_dir_def truediv_def Path_def str_def)

lemma alice_pending:
  "files alice_spool (str (pending_file ''alice''))
     = Some (json_dumps (JArr (map to_dict [report_job, notes_job])))"
  by (simp add: pending_file_alice alice_spool_def)

lemma alice_env_loads:
  "json_load alice_env (json_dumps (JArr (map to_dict [report_job, notes_job])))
     = Inr (JArr (map to_dict [report_job, notes_job]))"
  by (simp add: json_load_def alice_env_def table_env_def)

lemma alice_payloads:
  "exists alice_spool (file_path report_job)" "\<not> exists alice_spool (file_path notes_job)"
  "exists alice_spool (file_path memo_job)"
  by (simp_all add: exists_def alice_spool_def report_job_def notes_job_def memo_job_def str_def)

text \<open>
  Alice's handler starts: the report is emitted, the notes (payload gone) are not, and the
  job that arrives on a socket afterwards comes later.
\<close>

theorem C8_startup_order_witness:
  "\<exists>fs' h'. serve alice_env ''20240201_080000'' ''alice'' alice_spool idle
        [[Timeout, Connection ''20240201_080100'' [Data (''{}'' @ [CHR 0x0A])]]] = (None, fs', h')
     \<and> job_received (snd (snd (start alice_env ''20240201_080000'' ''alice'' alice_spool idle)))
         = [report_job]
     \<and> prefix [report_job] (job_received h')"
proof -
  have r: "\<not> running idle" by (simp add: idle_def)
  have j: "map (from_dict ''20240201_080000'') (map to_dict [report_job, notes_job])
      = map Inr [report_job, notes_job]"
    by (simp add: from_dict_samples)
  have k: "job_received idle @ filter (\<lambda>j. exists alice_spool (file_path j)) [report_job, notes_job]
      = [report_job]"
    by (simp add: idle_def alice_payloads)
  from C8_startup_order [OF r alice_pending alice_env_loads j] show ?thesis
    unfolding k .
qed

text \<open>Loading Alice's pending list twice.\<close>

theorem C6_load_twice_witness:
  "\<exists>fs1 h1. load_pending_jobs alice_env ''20240201_080000'' ''alice'' alice_spool idle = (None, fs1, h1)
     \<and> pending_jobs h1 = [report_job]
     \<and> files fs1 (str (pending_file ''alice'')) = None
     \<and> load_pending_jobs alice_env ''20240201_080500'' ''alice'' fs1 h1 = (None, fs1, h1)"
proof -
  have j: "map (from_dict ''20240201_080000'') (map to_dict [report_job, notes_job])
      = map Inr [report_job, notes_job]"
    by (simp add: from_dict_samples)
  have k: "pending_jobs idle @ filter (\<lambda>j. exists alice_spool (file_path j)) [report_job, notes_job]
      = [report_job]"
    by (simp add: idle_def alice_payloads)
  from C6_load_twice [OF alice_pending alice_env_loads j, of idle "''20240201_080500''"] show ?thesis
    unfolding k .
qed

text \<open>
  The stored list holds two well-formed records; the first load takes one of them, not the
  full list, since the payload of the other is gone.
\<close>

theorem C6_missing_payload_counterexample:
  "files alice_spool (str (pending_file ''alice''))
     = Some (json_dumps (JArr (map to_dict [report_job, notes_job])))
   \<and> json_load alice_env (json_dumps (JArr (map to_dict [report_job, notes_job])))
     = Inr (JArr (map to_dict [report_job, notes_job]))
   \<and> map (from_dict ''20240201_080000'') (map to_dict [report_job, notes_job])
     = [Inr report_job, Inr notes_job]
   \<and> pending_jobs (snd (snd (load_pending_jobs alice_env ''20240201_080000'' ''alice'' alice_spool idle)))
     = [report_job]
   \<and> [report_job] \<noteq> [report_job, notes_job]"
proof -
  have j: "map (from_dict ''20240201_080000'') (map to_dict [report_job, notes_job])
      = map Inr [report_job, notes_job]"
    by (simp add: from_dict_samples)
  have "pending_jobs (snd (snd (load_pending_jobs alice_env ''20240201_080000'' ''alice'' alice_spool idle)))
     = [report_job]"
    by (simp add: load_pending_jobs_list [OF alice_pending alice_env_loads j] accept_jobs_def
        idle_def alice_payloads)
  with alice_pending alice_env_loads j show ?thesis by simp
qed

section \<open>Saving the pending jobs\<close>

lemma mkdir_ok:
  "fst (mkdir fs p) = None \<Longrightarrow> mkdir fs p = (None, fs\<lparr>dirs := dirs fs \<union> set (lineage p)\<rparr>)"
  by (simp add: mkdir_def split: if_splits)

lemma save_pending_jobs_files:
  assumes "fst (mkdir fs (get_spool_dir username)) = None"
  shows "files (snd (save_pending_jobs fault username fs h)) =
     (if get_pending_jobs h = [] then (files fs)(str (pending_file username) := None)
      else (case fault of
              Completes \<Rightarrow> (files fs)(str (pending_file username) \<mapsto>
                             json_dumps (JArr (map to_dict (get_pending_jobs h))))
            | OpenFails \<Rightarrow> files fs
            | FailsAfter k \<Rightarrow> (files fs)(str (pending_file username) \<mapsto>
                             take k (json_dumps (JArr (map to_dict (get_pending_jobs h)))))))"
  using mkdir_ok [OF assms]
  by (auto simp add: save_pending_jobs_def get_pending_jobs_def Let_def exists_def unlink_def
      write_file_def split: write_fault.splits option.splits)

lemma filter_update_processed:
  "i < length js \<Longrightarrow>
   filter (\<lambda>j. \<not> processed j) (js[i := (js ! i)\<lparr>processed := True\<rparr>])
     = filter (\<lambda>j. \<not> processed j) (take i js) @ filter (\<lambda>j. \<not> processed j) (drop (Suc i) js)"
  by (simp add: upd_conv_take_nth_drop)

lemma from_dict_to_dict_unprocessed:
  "\<forall>j \<in> set js. normal_path (file_path j) \<and> \<not> processed j \<Longrightarrow>
   map (from_dict now) (map to_dict js) = map Inr js"
  by (induction js) (simp_all add: from_dict_to_dict)

text \<open>
  C7, as the code has it. The handler holds any jobs, with any flags; the job at index
  \<open>i\<close> is acknowledged, the spool directory can be made and the write completes. Then
  only that job's flag changes, and the pending-list file is written anew from the
  handler's list, whatever it held before: it holds exactly the jobs of the handler that
  are still unacknowledged, in their order (it is absent when there is none). No other
  file changes, and a handler that loads the file afterwards takes these jobs, those whose
  payload path exists.
\<close>

theorem C7_mark_job_processed:
  assumes i: "i < length (pending_jobs h)"
    and mk: "fst (mkdir fs (get_spool_dir username)) = None"
    and np: "\<forall>j \<in> set (pending_jobs h). normal_path (file_path j)"
    and others: "others = filter (\<lambda>j. \<not> processed j) (take i (pending_jobs h))
                        @ filter (\<lambda>j. \<not> processed j) (drop (Suc i) (pending_jobs h))"
    and rt: "json_load env (json_dumps (JArr (map to_dict others))) = Inr (JArr (map to_dict others))"
  shows "\<exists>e fs' h'. mark_job_processed Completes username fs h i = (e, fs', h')
     \<and> pending_jobs h' = (pending_jobs h)[i := (pending_jobs h ! i)\<lparr>processed := True\<rparr>]
     \<and> get_pending_jobs h' = others
     \<and> files fs' (str (pending_file username))
          = (if others = [] then None else Some (json_dumps (JArr (map to_dict others))))
     \<and> (\<forall>p. p \<noteq> str (pending_file username) \<longrightarrow> files fs' p = files fs p)
     \<and> load_pending_jobs env now username fs' h0
          = (None, fs'\<lparr>files := (files fs')(str (pending_file username) := None)\<rparr>,
             accept_jobs h0 (filter (\<lambda>j. exists fs' (file_path j)) others))"
proof -
  let ?P = "str (pending_file username)"
  let ?h' = "h\<lparr>pending_jobs := (pending_jobs h)[i := (pending_jobs h ! i)\<lparr>processed := True\<rparr>]\<rparr>"
  obtain e fs' where sv: "save_pending_jobs Completes username fs ?h' = (e, fs')"
    by (cases "save_pending_jobs Completes username fs ?h'")
  have mark: "mark_job_processed Completes username fs h i = (e, fs', ?h')"
    using i sv by (simp add: mark_job_processed_def)
  have gp: "get_pending_jobs ?h' = others"
    using i others by (simp add: get_pending_jobs_def filter_update_processed)
  have fl: "files fs' = (if others = [] then (files fs)(?P := None)
      else (files fs)(?P \<mapsto> json_dumps (JArr (map to_dict others))))"
    using save_pending_jobs_files [OF mk, of Completes ?h'] sv gp by simp
  have f1: "files fs' ?P = (if others = [] then None else Some (json_dumps (JArr (map to_dict others))))"
    by (simp add: fl)
  have f2: "\<forall>p. p \<noteq> ?P \<longrightarrow> files fs' p = files fs p"
    by (simp add: fl)
  have un: "\<forall>j \<in> set others. normal_path (file_path j) \<and> \<not> processed j"
    using np others by (auto dest: in_set_takeD in_set_dropD)
  have ld: "load_pending_jobs env now username fs' h0
          = (None, fs'\<lparr>files := (files fs')(?P := None)\<rparr>,
             accept_jobs h0 (filter (\<lambda>j. exists fs' (file_path j)) others))"
  proof (cases "others = []")
    case True
    with f1 have n: "files fs' ?P = None" by simp
    have "(files fs')(?P := files fs' ?P) = files fs'" by (rule fun_upd_triv)
    with n have "fs'\<lparr>files := (files fs')(?P := None)\<rparr> = fs'" by simp
    with n True show ?thesis
      by (simp add: load_pending_jobs_absent accept_jobs_Nil)
  next
    case False
    with f1 have c: "files fs' ?P = Some (json_dumps (JArr (map to_dict others)))" by simp
    show ?thesis
      by (rule load_pending_jobs_list [OF c rt from_dict_to_dict_unprocessed [OF un]])
  qed
  from mark gp f1 f2 ld show ?thesis by simp
qed

lemma mkdir_alice: "fst (mkdir alice_spool (get_spool_dir ''alice'')) = None"
  by (simp add: mkdir_def lineage_def get_spool_dir_def truediv_def Path_def str_def alice_spool_def
      upt_rec [of 1] upt_rec [of 2] upt_rec [of 3] upt_rec [of 4])

lemma sample_paths:
  "str (file_path report_job) = ''/tmp/open-pdf-creator-spool/alice/20240131_093000_7_Report.pdf''"
  "str (file_path notes_job) = ''/tmp/open-pdf-creator-spool/alice/20240131_093500_8_Notes.pdf''"
  "str (file_path memo_job) = ''/tmp/open-pdf-creator-spool/alice/20240131_094000_9_Memo.pdf''"
  by (simp_all add: report_job_def notes_job_def memo_job_def str_def)

lemma alice_env_loads2:
  "json_load alice_env (json_dumps (JArr (map to_dict [report_job, memo_job])))
     = Inr (JArr (map to_dict [report_job, memo_job]))"
  by (simp add: json_load_def alice_env_def table_env_def to_dict_def report_job_def notes_job_def
      memo_job_def quote_def escape_char_def repr_int_def str_def)

text \<open>
  Three jobs pending, the second acknowledged: the file then holds the first and the
  third, and a reload takes the first and the third, in that order.
\<close>

theorem C7_mark_job_processed_witness:
  "\<exists>e fs' h'. mark_job_processed Completes ''alice'' alice_spool busy 1 = (e, fs', h')
     \<and> get_pending_jobs h' = [report_job, memo_job]
     \<and> files fs' (str (pending_file ''alice''))
          = Some (json_dumps (JArr (map to_dict [report_job, memo_job])))
     \<and> pending_jobs (snd (snd (load_pending_jobs alice_env ''20240201_080000'' ''alice'' fs' idle)))
          = [report_job, memo_job]"
proof -
  have i: "1 < length (pending_jobs busy)" by (simp add: busy_def)
  have np: "\<forall>j \<in> set (pending_jobs busy). normal_path (file_path j)"
    by (simp add: busy_def normal_samples)
  have others: "[report_job, memo_job]
      = filter (\<lambda>j. \<not> processed j) (take 1 (pending_jobs busy))
        @ filter (\<lambda>j. \<not> processed j) (drop (Suc 1) (pending_jobs busy))"
    by (simp add: busy_def report_job_def memo_job_def)
  from C7_mark_job_processed [OF i mkdir_alice np others alice_env_loads2,
      of "''20240201_080000''" idle]
  obtain e fs' h' where m: "mark_job_processed Completes ''alice'' alice_spool busy 1 = (e, fs', h')"
    and gp: "get_pending_jobs h' = [report_job, memo_job]"
    and f1: "files fs' (str (pending_file ''alice''))
          = Some (json_dumps (JArr (map to_dict [report_job, memo_job])))"
    and f2: "\<forall>p. p \<noteq> str (pending_file ''alice'') \<longrightarrow> files fs' p = files alice_spool p"
    and ld: "load_pending_jobs alice_env ''20240201_080000'' ''alice'' fs' idle
          = (None, fs'\<lparr>files := (files fs')(str (pending_file ''alice'') := None)\<rparr>,
             accept_jobs idle (filter (\<lambda>j. exists fs' (file_path j)) [report_job, memo_job]))"
    by auto
  have "str (file_path report_job) \<noteq> str (pending_file ''alice'')"
    "str (file_path memo_job) \<noteq> str (pending_file ''alice'')"
    by (simp_all add: pending_file_alice sample_paths)
  with f2 have "files fs' (str (file_path report_job)) = files alice_spool (str (file_path report_job))"
    "files fs' (str (file_path memo_job)) = files alice_spool (str (file_path memo_job))"
    by blast+
  then have ex: "exists fs' (file_path report_job)" "exists fs' (file_path memo_job)"
    by (simp_all add: exists_def alice_spool_def sample_paths)
  have "pending_jobs (snd (snd (load_pending_jobs alice_env ''20240201_080000'' ''alice'' fs' idle)))
          = [report_job, memo_job]"
    unfolding ld by (simp add: ex accept_jobs_def idle_def)
  with m gp f1 show ?thesis by blast
qed

lemma to_dict_samples_differ:
  "to_dict report_job \<noteq> to_dict notes_job" "to_dict notes_job \<noteq> to_dict report_job"
  by (simp_all add: to_dict_def report_job_def notes_job_def)

lemma mark_job_processed_files:
  "i < length (pending_jobs h) \<Longrightarrow>
   files (fst (snd (mark_job_processed fault u fs h i)))
     = files (snd (save_pending_jobs fault u fs
         (h\<lparr>pending_jobs := (pending_jobs h)[i := (pending_jobs h ! i)\<lparr>processed := True\<rparr>]\<rparr>)))"
  by (simp add: mark_job_processed_def Let_def split_beta)

text \<open>
  The file is never read before it is rewritten. Alice's pending list names the report and
  the notes. A handler that holds the report alone acknowledges it: the file is removed,
  and the record of the notes, never acknowledged, is gone with it. A handler that holds
  the report, the notes and the memo acknowledges the notes: the file then names the
  report and the memo, a record that was not in the list before.
\<close>

theorem C7_rewrite_counterexample:
  "files alice_spool (str (pending_file ''alice''))
     = Some (json_dumps (JArr (map to_dict [report_job, notes_job])))
   \<and> spec_acknowledge (map to_dict [report_job, notes_job]) report_job = [to_dict notes_job]
   \<and> files (fst (snd (mark_job_processed Completes ''alice'' alice_spool reporting 0)))
         (str (pending_file ''alice'')) = None
   \<and> spec_acknowledge (map to_dict [report_job, notes_job]) notes_job = [to_dict report_job]
   \<and> files (fst (snd (mark_job_processed Completes ''alice'' alice_spool busy 1)))
         (str (pending_file ''alice''))
       = Some (json_dumps (JArr [to_dict report_job, to_dict memo_job]))
   \<and> json_dumps (JArr [to_dict report_job, to_dict memo_job]) \<noteq> json_dumps (JArr [to_dict report_job])"
proof -
  have a: "spec_acknowledge (map to_dict [report_job, notes_job]) report_job = [to_dict notes_job]"
    "spec_acknowledge (map to_dict [report_job, notes_job]) notes_job = [to_dict report_job]"
    by (simp_all add: spec_acknowledge_def to_dict_samples_differ)
  have l: "0 < length (pending_jobs reporting)" "1 < length (pending_jobs busy)"
    by (simp_all add: reporting_def busy_def)
  have g: "get_pending_jobs (reporting\<lparr>pending_jobs :=
        (pending_jobs reporting)[0 := (pending_jobs reporting ! 0)\<lparr>processed := True\<rparr>]\<rparr>) = []"
    "get_pending_jobs (busy\<lparr>pending_jobs :=
        (pending_jobs busy)[1 := (pending_jobs busy ! 1)\<lparr>processed := True\<rparr>]\<rparr>)
       = [report_job, memo_job]"
    by (simp_all add: get_pending_jobs_def reporting_def busy_def report_job_def memo_job_def)
  have b: "files (fst (snd (mark_job_processed Completes ''alice'' alice_spool reporting 0)))
         (str (pending_file ''alice'')) = None"
    unfolding mark_job_processed_files [OF l(1)] save_pending_jobs_files [OF mkdir_alice] g
    by simp
  have c: "files (fst (snd (mark_job_processed Completes ''alice'' alice_spool busy 1)))
         (str (pending_file ''alice''))
       = Some (json_dumps (JArr [to_dict report_job, to_dict memo_job]))"
    unfolding mark_job_processed_files [OF l(2)] save_pending_jobs_files [OF mkdir_alice] g
    by simp
  have d: "json_dumps (JArr [to_dict report_job, to_dict memo_job]) \<noteq> json_dumps (JArr [to_dict report_job])"
    by (simp add: to_dict_def report_job_def memo_job_def quote_def escape_char_def repr_int_def str_def)
  from alice_pending a b c d show ?thesis by simp
qed

text \<open>
  C3, as the code has it. Both writers open the pending-list file for writing, which
  truncates it, and then write the list. The backend's append: a write that completes
  leaves the old list with the new job at its end, one that fails at the open leaves the
  file as it was, one that fails later leaves a prefix of the new text. The handler's
  rewrite: when no unacknowledged job remains the file is absent; otherwise the same three
  cases, with the list of the unacknowledged jobs.
\<close>

theorem C3_pending_file_writes:
  assumes "load_existing env fs u = Inr (JArr xs)"
    and "fst (mkdir fs' (get_spool_dir username)) = None"
  shows "files (fst (snd (start_gui_with_job env orc fs info u))) (str (pending_file u))
      = (case pending_write orc of
           Completes \<Rightarrow> Some (json_dumps (JArr (xs @ [info])))
         | OpenFails \<Rightarrow> files fs (str (pending_file u))
         | FailsAfter k \<Rightarrow> Some (take k (json_dumps (JArr (xs @ [info])))))
   \<and> files (snd (save_pending_jobs fault username fs' h)) (str (pending_file username))
      = (if get_pending_jobs h = [] then None
         else (case fault of
                 Completes \<Rightarrow> Some (json_dumps (JArr (map to_dict (get_pending_jobs h))))
               | OpenFails \<Rightarrow> files fs' (str (pending_file username))
               | FailsAfter k \<Rightarrow> Some (take k (json_dumps (JArr (map to_dict (get_pending_jobs h)))))))"
proof -
  have a: "files (fst (snd (start_gui_with_job env orc fs info u))) (str (pending_file u))
      = (case pending_write orc of
           Completes \<Rightarrow> Some (json_dumps (JArr (xs @ [info])))
         | OpenFails \<Rightarrow> files fs (str (pending_file u))
         | FailsAfter k \<Rightarrow> Some (take k (json_dumps (JArr (xs @ [info])))))"
    using assms(1)
    by (simp add: start_gui_with_job_def list_append_def write_file_def split: write_fault.splits)
  have b: "files (snd (save_pending_jobs fault username fs' h)) (str (pending_file username))
      = (if get_pending_jobs h = [] then None
         else (case fault of
                 Completes \<Rightarrow> Some (json_dumps (JArr (map to_dict (get_pending_jobs h))))
               | OpenFails \<Rightarrow> files fs' (str (pending_file username))
               | FailsAfter k \<Rightarrow> Some (take k (json_dumps (JArr (map to_dict (get_pending_jobs h)))))))"
    by (simp add: save_pending_jobs_files [OF assms(2)] split: write_fault.splits)
  from a b show ?thesis by (rule conjI)
qed

lemma load_existing_alice:
  "load_existing alice_env alice_spool ''alice'' = Inr (JArr (map to_dict [report_job, notes_job]))"
  using alice_pending alice_env_loads
  by (simp add: load_existing_def exists_def read_file_def)

text \<open>
  On Alice's spool: an append that completes, a rewrite that fails after 40 bytes, and a
  rewrite with nothing left.
\<close>

theorem C3_pending_file_writes_witness:
  "files (fst (snd (start_gui_with_job alice_env no_listener alice_spool (to_dict memo_job) ''alice'')))
      (str (pending_file ''alice''))
      = Some (json_dumps (JArr (map to_dict [report_job, notes_job, memo_job])))
   \<and> files (snd (save_pending_jobs (FailsAfter 40) ''alice'' alice_spool busy))
      (str (pending_file ''alice''))
      = Some (take 40 (json_dumps (JArr (map to_dict [report_job, notes_job, memo_job]))))
   \<and> files (snd (save_pending_jobs Completes ''alice'' alice_spool idle)) (str (pending_file ''alice''))
      = None"
proof -
  have g: "get_pending_jobs busy = [report_job, notes_job, memo_job]" "get_pending_jobs idle = []"
    by (simp_all add: get_pending_jobs_def busy_def idle_def report_job_def notes_job_def memo_job_def)
  from C3_pending_file_writes [OF load_existing_alice mkdir_alice,
      of no_listener "to_dict memo_job" "FailsAfter 40" busy]
    C3_pending_file_writes [OF load_existing_alice mkdir_alice,
      of no_listener "to_dict memo_job" Completes idle]
  show ?thesis
    by (simp add: g no_listener_def)
qed

text \<open>
  A rewrite that is cut off right after the open: the file held a list of two jobs and is
  now empty, neither the old list nor the new one.
\<close>

theorem C3_truncated_counterexample:
  "files alice_spool (str (pending_file ''alice''))
     = Some (json_dumps (JArr (map to_dict [report_job, notes_job])))
   \<and> files (snd (save_pending_jobs (FailsAfter 0) ''alice'' alice_spool busy))
       (str (pending_file ''alice'')) = Some []"
proof -
  have g: "get_pending_jobs busy = [report_job, notes_job, memo_job]"
    by (simp add: get_pending_jobs_def busy_def report_job_def notes_job_def memo_job_def)
  have "files (snd (save_pending_jobs (FailsAfter 0) ''alice'' alice_spool busy))
       (str (pending_file ''alice'')) = Some []"
    by (simp add: save_pending_jobs_files [OF mkdir_alice] g)
  with alice_pending show ?thesis by simp
qed

section \<open>Submitting a job\<close>

lemma copy_stream_all: "copy_stream stdin written = written @ stdin"
proof (induction stdin written rule: copy_stream.induct)
  case (1 stdin written)
  show ?case
  proof (cases "take 65536 stdin = []")
    case True
    then have "stdin = []" by simp
    with True show ?thesis by (subst copy_stream.simps) simp
  next
    case False
    have "copy_stream stdin written = copy_stream (drop 65536 stdin) (written @ take 65536 stdin)"
      using False by (subst copy_stream.simps) simp
    also have "\<dots> = (written @ take 65536 stdin) @ drop 65536 stdin"
      using False by (rule "1.IH")
    finally show ?thesis by simp
  qed
qed

lemma mkdir_files: "files (snd (mkdir fs p)) = files fs"
  by (simp add: mkdir_def)

lemma ensure_spool_dir_files: "files (ensure_spool_dir fs u) = files fs"
  by (simp add: ensure_spool_dir_def Let_def mkdir_files)

lemma job_path_normal: "normal_path (job_path u ts jid t)"
  by (simp add: job_path_def normal_truediv normal_get_spool_dir)

lemma job_path_pending: "str (job_path u ts jid t) \<noteq> str (pending_file u)"
  unfolding job_path_def pending_file_def by (rule job_path_not_pending)

lemma write_payload_stdin:
  "input_file = None \<or> input_file = Some [] \<Longrightarrow>
   write_payload Completes fs stdin input_file p = (None, fs\<lparr>files := (files fs)(str p \<mapsto> stdin)\<rparr>)"
  by (auto simp add: write_payload_def write_file_def copy_stream_all)

lemma write_payload_other_files:
  "q \<noteq> str p \<Longrightarrow> files (snd (write_payload fault fs stdin input_file p)) q = files fs q"
  by (auto simp add: write_payload_def write_file_def split: sum.splits write_fault.splits)

lemma notify_gui_unreachable:
  "\<not> (socket_path_exists w \<and> unix_connects w) \<Longrightarrow> \<not> tcp_connects w \<Longrightarrow> \<not> notify_gui w info"
  by (simp add: notify_gui_def)

lemma load_existing_absent:
  "files fs (str (pending_file u)) = None \<Longrightarrow> load_existing env fs u = Inr (JArr [])"
  by (simp add: load_existing_def exists_def read_file_def)

lemma load_existing_list:
  "files fs (str (pending_file u)) = Some content \<Longrightarrow> json_load env content = Inr v \<Longrightarrow>
   load_existing env fs u = Inr v"
  by (simp add: load_existing_def exists_def read_file_def)

lemma start_gui_with_job_list:
  "load_existing env fs u = Inr (JArr xs) \<Longrightarrow> pending_write w = Completes \<Longrightarrow>
   start_gui_with_job env w fs info u
     = (None, fs\<lparr>files := (files fs)(str (pending_file u) \<mapsto> json_dumps (JArr (xs @ [info])))\<rparr>,
        [AppendPending True, StartGui (gui_starts w)])"
  by (simp add: start_gui_with_job_def list_append_def write_file_def)

lemma start_gui_with_job_write_fails:
  "load_existing env fs u = Inr (JArr xs) \<Longrightarrow> pending_write w \<noteq> Completes \<Longrightarrow>
   \<exists>fs'. start_gui_with_job env w fs info u = (Some OSError, fs', [AppendPending False])
     \<and> (\<forall>q. q \<noteq> str (pending_file u) \<longrightarrow> files fs' q = files fs q)"
  by (cases "pending_write w")
    (simp_all add: start_gui_with_job_def list_append_def write_file_def)

text \<open>
  C1. A job is submitted with its payload on the standard input, nothing listens on
  either transport, both writes complete, and the user has no pending-list file yet. Then
  \<open>process_job\<close> returns 0, and a handler of that user that loads the pending jobs next
  takes exactly one job, the record of this submission; the file that record names holds
  the bytes of the input stream, all of them and nothing else (so its size is the
  stream's), and the pending-list file is gone.
\<close>

theorem C1_submit_then_load:
  assumes pw: "payload_write w = Completes"
    and aw: "pending_write w = Completes"
    and unix: "\<not> (socket_path_exists w \<and> unix_connects w)"
    and tcp: "\<not> tcp_connects w"
    and inp: "input_file = None \<or> input_file = Some []"
    and fresh: "files fs (str (pending_file u)) = None"
    and job: "job = \<lparr>job_id = JStr jid, user = JStr u, title = JStr t, copies = JInt n,
                     options = JStr opts, file_path = job_path u now jid t,
                     timestamp = JStr now, processed = False\<rparr>"
    and rt: "json_load env (json_dumps (JArr [to_dict job])) = Inr (JArr [to_dict job])"
  shows "status (process_job env w now fs stdin jid u t n opts input_file) = Inr 0
    \<and> (\<exists>fs2. load_pending_jobs env now' u
                 (fs_after (process_job env w now fs stdin jid u t n opts input_file)) h
               = (None, fs2, accept_jobs h [job])
          \<and> files fs2 (str (file_path job)) = Some stdin
          \<and> files fs2 (str (pending_file u)) = None)"
proof -
  let ?p = "job_path u now jid t"
  let ?fs2 = "ensure_spool_dir fs u"
  let ?fs3 = "?fs2\<lparr>files := (files ?fs2)(str ?p \<mapsto> stdin)\<rparr>"
  let ?info = "job_info jid u t n opts ?p now"
  let ?fs4 = "?fs3\<lparr>files := (files ?fs3)(str (pending_file u) \<mapsto> json_dumps (JArr [?info]))\<rparr>"
  have ne: "str ?p \<noteq> str (pending_file u)"
    by (rule job_path_pending)
  have np: "normal_path (file_path job)"
    by (simp add: job job_path_normal)
  have info: "?info = to_dict job"
    by (simp add: job job_info_def to_dict_def)
  have f2: "files ?fs2 = files fs"
    by (rule ensure_spool_dir_files)
  have wp: "write_payload (payload_write w) ?fs2 stdin input_file ?p = (None, ?fs3)"
    using inp by (simp add: pw write_payload_stdin)
  have "files ?fs3 (str (pending_file u)) = None"
    using ne fresh f2 by simp
  then have le: "load_existing env ?fs3 u = Inr (JArr [])"
    by (rule load_existing_absent)
  have sg: "start_gui_with_job env w ?fs3 ?info u
      = (None, ?fs4, [AppendPending True, StartGui (gui_starts w)])"
    using start_gui_with_job_list [OF le aw, of ?info] by simp
  have nn: "\<not> notify_gui w ?info"
    using unix tcp by (rule notify_gui_unreachable)
  have pj: "process_job env w now fs stdin jid u t n opts input_file
      = \<lparr>status = Inr 0, fs_after = ?fs4,
         trace = [Notify (wire_message ?info) False, AppendPending True, StartGui (gui_starts w)]\<rparr>"
    by (simp add: process_job_def Let_def wp nn sg)
  have c: "files ?fs4 (str (pending_file u)) = Some (json_dumps (JArr [to_dict job]))"
    by (simp add: info)
  have fd: "map (from_dict now') [to_dict job] = map Inr [job]"
    using from_dict_to_dict [OF np, of now'] by (simp add: job)
  have e: "exists ?fs4 (file_path job)"
    using ne by (simp add: exists_def job)
  have ld: "load_pending_jobs env now' u ?fs4 h
      = (None, ?fs4\<lparr>files := (files ?fs4)(str (pending_file u) := None)\<rparr>, accept_jobs h [job])"
    using load_pending_jobs_list [OF c rt fd, of h] e by simp
  have pay: "files (?fs4\<lparr>files := (files ?fs4)(str (pending_file u) := None)\<rparr>) (str (file_path job))
      = Some stdin"
    using ne by (simp add: job)
  show ?thesis
    unfolding pj using ld pay by simp
qed

lemma invoice_path:
  "str (job_path ''bob'' ''20240201_101500'' ''12'' ''Invoice #42/2024'')
     = ''/tmp/open-pdf-creator-spool/bob/20240201_101500_12_Invoice__42_2024.pdf''"
  by (simp add: job_path_def job_filename_def safe_title_def isalnum_def get_spool_dir_def
      truediv_def Path_def str_def)

lemma pending_file_bob:
  "str (pending_file ''bob'') = ''/tmp/open-pdf-creator-spool/bob/pending_jobs.json''"
  by (simp add: pending_file_def get_spool_dir_def truediv_def Path_def str_def)

text \<open>Bob's invoice, submitted and loaded.\<close>

theorem C1_submit_then_load_witness:
  "status (process_job bob_env no_listener ''20240201_101500'' empty_spool ''%PDF-1.4 invoice''
             ''12'' ''bob'' ''Invoice #42/2024'' 1 ''media=A4'' None) = Inr 0
   \<and> (\<exists>fs2. load_pending_jobs bob_env ''20240201_101600'' ''bob''
               (fs_after (process_job bob_env no_listener ''20240201_101500'' empty_spool
                  ''%PDF-1.4 invoice'' ''12'' ''bob'' ''Invoice #42/2024'' 1 ''media=A4'' None)) idle
             = (None, fs2, accept_jobs idle [invoice_job])
        \<and> files fs2 ''/tmp/open-pdf-creator-spool/bob/20240201_101500_12_Invoice__42_2024.pdf''
             = Some ''%PDF-1.4 invoice''
        \<and> files fs2 ''/tmp/open-pdf-creator-spool/bob/pending_jobs.json'' = None)"
proof -
  have pw: "payload_write no_listener = Completes" and aw: "pending_write no_listener = Completes"
    and unix: "\<not> (socket_path_exists no_listener \<and> unix_connects no_listener)"
    and tcp: "\<not> tcp_connects no_listener"
    by (simp_all add: no_listener_def)
  have inp: "(None :: string option) = None \<or> (None :: string option) = Some []" by simp
  have fresh: "files empty_spool (str (pending_file ''bob'')) = None"
    by (simp add: empty_spool_def)
  have rt: "json_load bob_env (json_dumps (JArr [to_dict invoice_job])) = Inr (JArr [to_dict invoice_job])"
    by (simp add: json_load_def bob_env_def table_env_def)
  have p: "str (file_path invoice_job)
      = ''/tmp/open-pdf-creator-spool/bob/20240201_101500_12_Invoice__42_2024.pdf''"
    by (simp add: invoice_job_def invoice_path)
  from C1_submit_then_load [OF pw aw unix tcp inp fresh invoice_job_def rt,
      of "''%PDF-1.4 invoice''" "''20240201_101600''" idle]
  show ?thesis
    unfolding p pending_file_bob .
qed

section \<open>The exit status\<close>

text \<open>
  What holds of the exit status: fewer than five arguments give 1 and touch nothing; a
  payload that cannot be written gives 1 with no notification attempted and the
  pending-list file as it was; a stored payload gives 0 when the job is delivered or the
  pending list is appended without an exception, whether or not the GUI could be started.
\<close>


lemma main_too_few_arguments:
  "length argv \<noteq> 1 \<Longrightarrow> length argv < 6 \<Longrightarrow>
   main env w now fs stdin argv = \<lparr>status = Inr 1, fs_after = fs, trace = []\<rparr>"
  by (simp add: main_def)

lemma process_job_payload_failure:
  assumes "fst (write_payload (payload_write w) (ensure_spool_dir fs u) stdin input_file
                  (job_path u now jid t)) \<noteq> None"
  shows "status (process_job env w now fs stdin jid u t n opts input_file) = Inr 1
    \<and> trace (process_job env w now fs stdin jid u t n opts input_file) = []
    \<and> files (fs_after (process_job env w now fs stdin jid u t n opts input_file)) (str (pending_file u))
        = files fs (str (pending_file u))"
proof -
  obtain e fs3 where wp: "write_payload (payload_write w) (ensure_spool_dir fs u) stdin input_file
      (job_path u now jid t) = (Some e, fs3)"
    using assms
    by (cases "write_payload (payload_write w) (ensure_spool_dir fs u) stdin input_file (job_path u now jid t)")
      auto
  have "files fs3 (str (pending_file u)) = files (ensure_spool_dir fs u) (str (pending_file u))"
    using write_payload_other_files [of "str (pending_file u)" "job_path u now jid t"
        "payload_write w" "ensure_spool_dir fs u" stdin input_file] job_path_pending [of u now jid t] wp
    by simp
  then show ?thesis
    by (simp add: process_job_def Let_def wp ensure_spool_dir_files)
qed

lemma process_job_stored:
  assumes "write_payload (payload_write w) (ensure_spool_dir fs u) stdin input_file
             (job_path u now jid t) = (None, fs3)"
    and "notify_gui w (job_info jid u t n opts (job_path u now jid t) now)
         \<or> fst (start_gui_with_job env w fs3 (job_info jid u t n opts (job_path u now jid t) now) u) = None"
  shows "status (process_job env w now fs stdin jid u t n opts input_file) = Inr 0"
  using assms
  by (cases "start_gui_with_job env w fs3 (job_info jid u t n opts (job_path u now jid t) now) u")
    (auto simp add: process_job_def Let_def split: option.splits)

lemma process_job_append_failure:
  assumes pw: "payload_write w = Completes"
    and aw: "pending_write w \<noteq> Completes"
    and unix: "\<not> (socket_path_exists w \<and> unix_connects w)"
    and tcp: "\<not> tcp_connects w"
    and inp: "input_file = None \<or> input_file = Some []"
    and old: "load_existing env (ensure_spool_dir fs u
                \<lparr>files := (files (ensure_spool_dir fs u))(str (job_path u now jid t) \<mapsto> stdin)\<rparr>) u
              = Inr (JArr xs)"
  shows "status (process_job env w now fs stdin jid u t n opts input_file) = Inl OSError
    \<and> files (fs_after (process_job env w now fs stdin jid u t n opts input_file))
         (str (job_path u now jid t)) = Some stdin"
proof -
  let ?p = "job_path u now jid t"
  let ?fs2 = "ensure_spool_dir fs u"
  let ?fs3 = "?fs2\<lparr>files := (files ?fs2)(str ?p \<mapsto> stdin)\<rparr>"
  let ?info = "job_info jid u t n opts ?p now"
  have wp: "write_payload (payload_write w) ?fs2 stdin input_file ?p = (None, ?fs3)"
    using inp by (simp add: pw write_payload_stdin)
  have nn: "\<not> notify_gui w ?info"
    using unix tcp by (rule notify_gui_unreachable)
  obtain fs4 where sg: "start_gui_with_job env w ?fs3 ?info u = (Some OSError, fs4, [AppendPending False])"
    and keep: "\<forall>q. q \<noteq> str (pending_file u) \<longrightarrow> files fs4 q = files ?fs3 q"
    using start_gui_with_job_write_fails [OF old aw, of ?info] by blast
  from keep job_path_pending [of u now jid t] have "files fs4 (str ?p) = Some stdin"
    by simp
  then show ?thesis
    by (simp add: process_job_def Let_def wp nn sg)
qed

lemma alice_argv:
  "main alice_env append_refused ''20240201_101500'' alice_spool ''%PDF-1.4 letter''
     [''open-pdf-creator'', ''10'', ''alice'', ''Letter'', ''1'', ''media=A4'']
   = process_job alice_env append_refused ''20240201_101500'' alice_spool ''%PDF-1.4 letter''
       ''10'' ''alice'' ''Letter'' 1 ''media=A4'' None"
  by (simp add: main_def alice_env_def table_env_def digits_value_def)

lemma letter_path:
  "str (job_path ''alice'' ''20240201_101500'' ''10'' ''Letter'')
     = ''/tmp/open-pdf-creator-spool/alice/20240201_101500_10_Letter.pdf''"
  by (simp add: job_path_def job_filename_def safe_title_def isalnum_def get_spool_dir_def
      truediv_def Path_def str_def)

text \<open>
  C5 fails where the payload is stored and appending to the pending list raises: the write
  of the pending-list file stands in no \<^verbatim>\<open>try\<close>, the exception escapes \<^verbatim>\<open>main\<close>, and
  the script exits with 1. Here Alice prints a letter while nothing listens and her
  pending-list file cannot be opened for writing: the payload is in the spool, the exit
  status is 1.
\<close>

theorem C5_append_failure_exit_status:
  "exit_status (main alice_env append_refused ''20240201_101500'' alice_spool ''%PDF-1.4 letter''
     [''open-pdf-creator'', ''10'', ''alice'', ''Letter'', ''1'', ''media=A4'']) = 1
   \<and> files (fs_after (main alice_env append_refused ''20240201_101500'' alice_spool ''%PDF-1.4 letter''
        [''open-pdf-creator'', ''10'', ''alice'', ''Letter'', ''1'', ''media=A4'']))
        ''/tmp/open-pdf-creator-spool/alice/20240201_101500_10_Letter.pdf'' = Some ''%PDF-1.4 letter''"
proof -
  have pw: "payload_write append_refused = Completes"
    and aw: "pending_write append_refused \<noteq> Completes"
    and unix: "\<not> (socket_path_exists append_refused \<and> unix_connects append_refused)"
    and tcp: "\<not> tcp_connects append_refused"
    by (simp_all add: append_refused_def no_listener_def)
  have inp: "(None :: string option) = None \<or> (None :: string option) = Some []" by simp
  let ?fs3 = "ensure_spool_dir alice_spool ''alice''
      \<lparr>files := (files (ensure_spool_dir alice_spool ''alice''))
         (str (job_path ''alice'' ''20240201_101500'' ''10'' ''Letter'') \<mapsto> ''%PDF-1.4 letter'')\<rparr>"
  have "files ?fs3 (str (pending_file ''alice''))
      = Some (json_dumps (JArr (map to_dict [report_job, notes_job])))"
    using alice_pending job_path_pending [of "''alice''" "''20240201_101500''" "''10''" "''Letter''"]
    by (simp add: ensure_spool_dir_files)
  then have old: "load_existing alice_env ?fs3 ''alice'' = Inr (JArr (map to_dict [report_job, notes_job]))"
    using alice_env_loads by (rule load_existing_list)
  from process_job_append_failure [OF pw aw unix tcp inp old, of 1 "''media=A4''"]
  show ?thesis
    unfolding alice_argv letter_path by (simp add: exit_status_def)
qed

end
